theory Spec2Isabelle
  imports Main "HOL-Library.Sublist"
begin

section \<open>Python strings\<close>

text \<open>
  A Python \<open>str\<close> is a sequence of Unicode code points, so it is modelled as a list of
  natural numbers (one per code point).  ASCII literals of the source are written with
  \<open>asc\<close>; Japanese literals are given by their code points.
\<close>

type_synonym ustr = "nat list"

definition asc :: "string \<Rightarrow> ustr" where
  "asc s = map of_char s"

text \<open>
  \<open>str.isspace\<close> on one code point; \<open>str.strip()\<close> and the class \<open>\s\<close> of a \<open>str\<close>
  pattern both use this set (CPython's \<open>Py_UNICODE_ISSPACE\<close>).
\<close>

definition isspace :: "nat \<Rightarrow> bool" where
  "isspace c \<longleftrightarrow>
     (9 \<le> c \<and> c \<le> 13) \<or> (28 \<le> c \<and> c \<le> 32) \<or> c = 133 \<or> c = 160 \<or> c = 5760 \<or>
     (8192 \<le> c \<and> c \<le> 8202) \<or> c = 8232 \<or> c = 8233 \<or> c = 8239 \<or> c = 8287 \<or> c = 12288"

definition str_lstrip :: "ustr \<Rightarrow> ustr" where
  "str_lstrip s = dropWhile isspace s"

definition str_rstrip :: "ustr \<Rightarrow> ustr" where
  "str_rstrip s = rev (dropWhile isspace (rev s))"

text \<open>\<open>s.strip()\<close>\<close>

definition str_strip :: "ustr \<Rightarrow> ustr" where
  "str_strip s = str_rstrip (str_lstrip s)"

text \<open>
  \<open>s.replace(old, new)\<close>: the occurrences of \<open>old\<close> are replaced from left to right,
  without overlap; an empty \<open>old\<close> matches between any two code points.
\<close>

function str_replace :: "ustr \<Rightarrow> ustr \<Rightarrow> ustr \<Rightarrow> ustr" where
  "str_replace old new [] = (if old = [] then new else [])"
| "str_replace old new (c # cs) =
     (if old = [] then new @ c # str_replace old new cs
      else if prefix old (c # cs) then new @ str_replace old new (drop (length old) (c # cs))
      else c # str_replace old new cs)"
  by pat_completeness auto
termination
  by (relation "measure (\<lambda>(old, new, s). length s)") auto

text \<open>
  \<open>re.sub(r"[X]+", rep, s)\<close> for a character class \<open>X\<close> given as a predicate: every
  maximal run of class members is replaced by \<open>rep\<close>.
\<close>

function re_sub_runs :: "(nat \<Rightarrow> bool) \<Rightarrow> ustr \<Rightarrow> ustr \<Rightarrow> ustr" where
  "re_sub_runs P rep [] = []"
| "re_sub_runs P rep (c # cs) =
     (if P c then rep @ re_sub_runs P rep (dropWhile P cs) else c # re_sub_runs P rep cs)"
  by pat_completeness auto
termination
  by (relation "measure (\<lambda>(P, rep, s). length s)")
     (auto simp: length_dropWhile_le le_imp_less_Suc)

section \<open>Regular expressions (the part of \<open>re\<close> the rule tables use)\<close>

datatype regex =
    Lit ustr
  | Dot
  | OneOf "nat list"
  | Seq regex regex
  | Alt regex regex
  | Opt regex
  | Star regex
  | NegLook regex

text \<open>
  \<open>rmatch r s\<close> lists the remainders of \<open>s\<close> after every way of matching \<open>r\<close> at the
  front of \<open>s\<close>.  \<open>Dot\<close> is \<open>.\<close> under \<open>re.DOTALL\<close>; \<open>NegLook r\<close> is \<open>(?!r)\<close>.  An
  iteration of \<open>Star\<close> that consumes nothing is not repeated, as in the \<open>re\<close> engine.
\<close>

function rmatch :: "regex \<Rightarrow> ustr \<Rightarrow> ustr list" where
  "rmatch (Lit w) s = (if prefix w s then [drop (length w) s] else [])"
| "rmatch Dot s = (case s of [] \<Rightarrow> [] | c # t \<Rightarrow> [t])"
| "rmatch (OneOf cs) s = (case s of [] \<Rightarrow> [] | c # t \<Rightarrow> if c \<in> set cs then [t] else [])"
| "rmatch (Seq a b) s = concat (map (rmatch b) (rmatch a s))"
| "rmatch (Alt a b) s = rmatch a s @ rmatch b s"
| "rmatch (Opt a) s = rmatch a s @ [s]"
| "rmatch (Star a) s =
     s # concat (map (rmatch (Star a)) (filter (\<lambda>t. length t < length s) (rmatch a s)))"
| "rmatch (NegLook a) s = (if rmatch a s = [] then [s] else [])"
  by pat_completeness auto
termination
  by (relation "measures [\<lambda>(r, s). size r, \<lambda>(r, s). length s]") auto

text \<open>\<open>rx.search(t)\<close> as a truth value: the pattern matches at some position of \<open>t\<close>.\<close>

fun re_search :: "regex \<Rightarrow> ustr \<Rightarrow> bool" where
  "re_search r [] \<longleftrightarrow> rmatch r [] \<noteq> []"
| "re_search r (c # cs) \<longleftrightarrow> rmatch r (c # cs) \<noteq> [] \<or> re_search r cs"

fun alts :: "regex list \<Rightarrow> regex" where
  "alts [] = Lit []"
| "alts [r] = r"
| "alts (r # rs) = Alt r (alts rs)"

fun seqs :: "regex list \<Rightarrow> regex" where
  "seqs [] = Lit []"
| "seqs [r] = r"
| "seqs (r # rs) = Seq r (seqs rs)"

section \<open>32_label_women_risk.py\<close>

text \<open>A compiled pattern is used only through \<open>rx.search(t)\<close>, so it is its search predicate.\<close>

type_synonym pattern = "ustr \<Rightarrow> bool"

type_synonym rule = "int \<times> pattern \<times> ustr"

definition re_compile :: "regex \<Rightarrow> pattern" where
  "re_compile r = re_search r"

text \<open>
  The two words the patterns combine most: "touyo" (administration, U+6295 U+4E0E) and
  "shiyou" (use, U+4F7F U+7528).
\<close>

definition touyo_or_shiyou :: regex where
  "touyo_or_shiyou = Alt (Lit [25237, 19982]) (Lit [20351, 29992])"

definition shiyou_or_touyo :: regex where
  "shiyou_or_touyo = Alt (Lit [20351, 29992]) (Lit [25237, 19982])"

text \<open>
  \<open>PREG_RULES_RAW\<close>, each pattern string as its syntax tree, in the order of the source:
  \<^item> score 3, tag "contraindicated": five alternatives, the last two with the negative
    lookahead \<open>(?!...)\<close>;
  \<^item> score 2, tag "not_recommended": seven alternatives;
  \<^item> score 1, tag "benefit_over_risk_or_caution": five alternatives, the first with an
    optional prefix, two \<open>.*\<close> and the class of two hiragana at its end.
\<close>

definition preg_rx3 :: regex where
  "preg_rx3 =
     alts
       [Lit [31105, 24524],
        Lit [25237, 19982, 12375, 12390, 12399, 12394, 12425, 12394, 12356],
        Lit [20351, 29992, 12375, 12390, 12399, 12394, 12425, 12394, 12356],
        seqs [Lit [25237, 19982, 12375, 12394, 12356, 12371, 12392],
              NegLook (Lit [12364, 26395, 12414, 12375, 12356])],
        seqs [Lit [20351, 29992, 12375, 12394, 12356, 12371, 12392],
              NegLook (Lit [12364, 26395, 12414, 12375, 12356])]]"

definition preg_rx2 :: regex where
  "preg_rx2 =
     alts
       [Lit [25237, 19982, 12375, 12394, 12356, 12371, 12392, 12364, 26395, 12414, 12375,
             12356],
        Lit [20351, 29992, 12375, 12394, 12356, 12371, 12392, 12364, 26395, 12414, 12375,
             12356],
        seqs [Lit [21407, 21063],
              Star Dot,
              touyo_or_shiyou,
              Lit [12375, 12394, 12356]],
        seqs [touyo_or_shiyou,
              Lit [12399, 25512, 22888, 12373, 12428, 12394, 12356]],
        seqs [touyo_or_shiyou,
              Lit [12434, 36991, 12369, 12427, 12371, 12392, 12364, 26395, 12414, 12375,
                   12356]],
        seqs [shiyou_or_touyo,
              Lit [12434, 22238, 36991, 12377, 12427, 12371, 12392, 12364, 26395, 12414,
                   12375, 12356]],
        seqs [Lit [21487, 33021, 12394, 38480, 12426],
              touyo_or_shiyou,
              Lit [12434, 36991, 12369, 12427]]]"

definition preg_rx1 :: regex where
  "preg_rx1 =
     alts
       [seqs [Opt (Lit [27835, 30274, 19978, 12398]),
              alts [Lit [26377, 30410, 24615],
                    Lit [12505, 12493, 12501, 12451, 12483, 12488],
                    Lit [21033, 30410],
                    Lit [21033, 28857]],
              Star Dot,
              Alt (Lit [21361, 38522, 24615]) (Lit [12522, 12473, 12463]),
              Star Dot,
              Alt (Lit [19978, 22238]) (Lit [20940, 39381]),
              OneOf [12427, 12428]],
        seqs [Lit [24517, 35201],
              Opt (Alt (Lit [12394]) (Lit [26178])),
              Lit [22580, 21512, 12395],
              Alt (Lit [38480, 12426]) (Lit [12398, 12415]),
              Star Dot,
              touyo_or_shiyou],
        seqs [Lit [12420, 12416, 12434, 24471, 12394, 12356, 22580, 21512],
              Alt (Lit [12395, 38480, 12426]) (Lit [12398, 12415]),
              Star Dot,
              touyo_or_shiyou],
        seqs [Lit [24517, 35201, 26368, 23567, 38480],
              Opt (Alt (Lit [12398, 29992, 37327]) (Lit [12398, 31684, 22258])),
              Opt (Lit [12391, 12398]),
              touyo_or_shiyou],
        Lit [24910, 37325, 12395, 25237, 19982]]"

definition PREG_RULES_RAW :: "(int \<times> regex \<times> ustr) list" where
  "PREG_RULES_RAW =
     [(3, preg_rx3, asc ''contraindicated''),
      (2, preg_rx2, asc ''not_recommended''),
      (1, preg_rx1, asc ''benefit_over_risk_or_caution'')]"

definition PREG_RULES :: "rule list" where
  "PREG_RULES = map (\<lambda>(s, p, tag). (s, re_compile p, tag)) PREG_RULES_RAW"

text \<open>\<open>normalize_for_match\<close> (called by \<open>classify\<close> on a \<open>str\<close> only).\<close>

definition normalize_for_match :: "ustr \<Rightarrow> ustr" where
  "normalize_for_match s0 =
     (let s = str_replace [10] [32] (str_replace [13] [32] (str_replace [12288] [32] s0));
          s = re_sub_runs isspace [32] s;
          \<comment> \<open>the two spelling variants of uwamawaru (U+4E0A..) become the canonical one\<close>
          s = str_replace [19978, 24315, 12427] [19978, 22238, 12427]
                (str_replace [19978, 12414, 12431, 12427] [19978, 22238, 12427] s)
      in str_strip s)"

text \<open>The \<open>for\<close> loop of \<open>classify\<close>, returning at the first rule that matches.\<close>

fun classify_loop :: "ustr \<Rightarrow> rule list \<Rightarrow> int \<times> ustr" where
  "classify_loop t [] = (0, asc ''unclear'')"
| "classify_loop t ((score, rx, tag) # rules) =
     (if rx t then (score, tag) else classify_loop t rules)"

text \<open>\<open>classify\<close>; \<open>None\<close> is a \<open>text\<close> that is not a \<open>str\<close>.\<close>

definition classify :: "ustr option \<Rightarrow> rule list \<Rightarrow> int \<times> ustr" where
  "classify text rules =
     (case text of
        None \<Rightarrow> (0, asc ''none'')
      | Some s \<Rightarrow>
          if str_strip s = [] then (0, asc ''none'')
          else classify_loop (normalize_for_match s) rules)"

text \<open>
  The parameter \<open>rules\<close> is annotated as a list, which Python does not enforce.  The next
  definition is \<open>classify\<close> again, line by line, for a caller that may pass an unset table
  (\<open>None\<close>): the table is read by the \<open>for\<close> statement only, after the test on the text and
  after \<open>normalize_for_match\<close>, and iterating over \<open>None\<close> raises \<open>TypeError\<close>.
\<close>

datatype py_error = TypeError

definition classify_untyped :: "ustr option \<Rightarrow> rule list option \<Rightarrow> py_error + int \<times> ustr" where
  "classify_untyped text rules =
     (case text of
        None \<Rightarrow> Inr (0, asc ''none'')
      | Some s \<Rightarrow>
          if str_strip s = [] then Inr (0, asc ''none'')
          else
            let t = normalize_for_match s
            in (case rules of
                  None \<Rightarrow> Inl TypeError
                | Some rs \<Rightarrow> Inr (classify_loop t rs)))"

text \<open>
  The confidence expressions of \<open>main\<close>; \<open>flags.get(k)\<close> is truthy when the key is present
  with value \<open>True\<close>.
\<close>

definition score_base :: "int \<Rightarrow> int" where
  "score_base sc = (if sc = 3 then 3 else if sc = 2 then 2 else if sc = 1 then 1 else 0)"

definition flag_bonus :: "(ustr \<rightharpoonup> bool) \<Rightarrow> ustr \<Rightarrow> int" where
  "flag_bonus flags k = (if flags k = Some True then 1 else 0)"

definition preg_conf :: "int \<Rightarrow> (ustr \<rightharpoonup> bool) \<Rightarrow> int" where
  "preg_conf p_score preg_flags =
     min 3 (score_base p_score
            + flag_bonus preg_flags (asc ''has_human_terato'')
            + flag_bonus preg_flags (asc ''has_animal_terato''))"

definition nurs_conf :: "int \<Rightarrow> (ustr \<rightharpoonup> bool) \<Rightarrow> int" where
  "nurs_conf n_score nurs_flags =
     min 3 (score_base n_score
            + flag_bonus nurs_flags (asc ''milk_transfer_detected'')
            + flag_bonus nurs_flags (asc ''adverse_infant_effects''))"

section \<open>ElementTree elements and paths\<close>

text \<open>
  An \<open>xml.etree.ElementTree.Element\<close>: tag (in the form \<open>{uri}local\<close>), attribute
  dictionary, text before the first child, tail text after the element's end tag, and the
  children in document order.
\<close>

datatype elem =
  Elem (tag: ustr) (attrib: "(ustr \<times> ustr) list") (etext: "ustr option")
       (tail: "ustr option") (children: "elem list")

text \<open>\<open>el.get(key)\<close>\<close>

definition el_get :: "elem \<Rightarrow> ustr \<Rightarrow> ustr option" where
  "el_get el key = map_of (attrib el) key"

text \<open>Truth value of an \<open>Optional[str]\<close>: neither \<open>None\<close> nor the empty string.\<close>

definition truthy :: "ustr option \<Rightarrow> bool" where
  "truthy x \<longleftrightarrow> (case x of None \<Rightarrow> False | Some s \<Rightarrow> s \<noteq> [])"

text \<open>
  The string inside an \<open>Optional[str]\<close>; it is only read where the value is truthy.
\<close>

definition str_of :: "ustr option \<Rightarrow> ustr" where
  "str_of x = (case x of None \<Rightarrow> [] | Some s \<Rightarrow> s)"

text \<open>\<open>a or b\<close> on two \<open>Optional[str]\<close>\<close>

definition py_or :: "ustr option \<Rightarrow> ustr option \<Rightarrow> ustr option" where
  "py_or a b = (if truthy a then a else b)"

text \<open>\<open>s or None\<close>\<close>

definition or_none :: "ustr \<Rightarrow> ustr option" where
  "or_none s = (if s = [] then None else Some s)"

text \<open>\<open>el.iter()\<close>: the element and all its descendants, in document order.\<close>

fun iter_elem :: "elem \<Rightarrow> elem list" where
  "iter_elem (Elem t a x ta cs) = Elem t a x ta cs # concat (map iter_elem cs)"

text \<open>\<open>el.itertext()\<close>: the non-empty texts and tails inside the element, in document order.\<close>

definition text_piece :: "ustr option \<Rightarrow> ustr list" where
  "text_piece x = (case x of None \<Rightarrow> [] | Some s \<Rightarrow> if s = [] then [] else [s])"

fun itertext :: "elem \<Rightarrow> ustr list" where
  "itertext (Elem t a x ta cs) =
     text_piece x @ concat (map (\<lambda>c. itertext c @ text_piece (tail c)) cs)"

text \<open>\<open>"".join(el.itertext())\<close>\<close>

definition itertext_join :: "elem \<Rightarrow> ustr" where
  "itertext_join el = concat (itertext el)"

text \<open>
  The paths of the source have two kinds of steps: \<open>tag\<close> (children with that tag) and
  \<open>//tag\<close> (descendants with that tag, the context element itself excluded).  \<open>findall\<close>
  applies the steps from the left, each to all elements selected so far, in order.
\<close>

datatype step = Child ustr | Descendant ustr

fun select_step :: "step \<Rightarrow> elem list \<Rightarrow> elem list" where
  "select_step (Child t) ctx = concat (map (\<lambda>e. filter (\<lambda>c. tag c = t) (children e)) ctx)"
| "select_step (Descendant t) ctx =
     concat (map (\<lambda>e. filter (\<lambda>c. tag c = t) (tl (iter_elem e))) ctx)"

fun findall_from :: "elem list \<Rightarrow> step list \<Rightarrow> elem list" where
  "findall_from ctx [] = ctx"
| "findall_from ctx (st # path) = findall_from (select_step st ctx) path"

definition findall :: "elem \<Rightarrow> step list \<Rightarrow> elem list" where
  "findall el path = findall_from [el] path"

definition find_first :: "elem \<Rightarrow> step list \<Rightarrow> elem option" where
  "find_first el path = (case findall el path of [] \<Rightarrow> None | x # _ \<Rightarrow> Some x)"

section \<open>21_sgml2rawdata.py\<close>

definition PI_NS :: ustr where
  "PI_NS = asc ''http://info.pmda.go.jp/namespace/prescription_drugs/package_insert/1.0''"

definition XMLNS :: ustr where
  "XMLNS = asc ''http://www.w3.org/XML/1998/namespace''"

text \<open>The tag that the prefixed name \<open>pi:name\<close> stands for under \<open>NS\<close>.\<close>

definition pi :: "string \<Rightarrow> ustr" where
  "pi name = asc ''{'' @ PI_NS @ asc ''}'' @ asc name"

text \<open>The attribute key \<open>{XMLNS}lang\<close>.\<close>

definition XML_LANG :: ustr where
  "XML_LANG = asc ''{'' @ XMLNS @ asc ''}lang''"

definition get_text :: "elem option \<Rightarrow> step list \<Rightarrow> ustr option" where
  "get_text node xpath =
     (case node of
        None \<Rightarrow> None
      | Some n \<Rightarrow>
          (case find_first n xpath of
             None \<Rightarrow> None
           | Some el \<Rightarrow> if truthy (etext el) then or_none (str_strip (str_of (etext el))) else None))"

definition get_text_direct :: "elem option \<Rightarrow> ustr option" where
  "get_text_direct el =
     (case el of
        None \<Rightarrow> None
      | Some e \<Rightarrow> if truthy (etext e) then or_none (str_strip (str_of (etext e))) else None)"

text \<open>The \<open>for lang in ...\<close> loop of \<open>text_ja\<close>; \<open>None\<close> when it ends without returning.\<close>

fun text_ja_loop :: "elem list \<Rightarrow> ustr option" where
  "text_ja_loop [] = None"
| "text_ja_loop (lang # rest) =
     (if el_get lang XML_LANG = Some (asc ''ja'') \<and> truthy (etext lang)
         \<and> str_strip (str_of (etext lang)) \<noteq> []
      then Some (str_strip (str_of (etext lang)))
      else text_ja_loop rest)"

definition text_ja :: "elem option \<Rightarrow> ustr option" where
  "text_ja detail_elem =
     (case detail_elem of
        None \<Rightarrow> None
      | Some d \<Rightarrow>
          (case text_ja_loop (findall d [Child (pi ''Lang'')]) of
             Some s \<Rightarrow> Some s
           | None \<Rightarrow>
               if truthy (etext d) \<and> str_strip (str_of (etext d)) \<noteq> []
               then Some (str_strip (str_of (etext d)))
               else None))"

text \<open>The loop of \<open>lang_text_all\<close>.\<close>

fun lang_text_all_loop :: "elem list \<Rightarrow> ustr option" where
  "lang_text_all_loop [] = None"
| "lang_text_all_loop (lang # rest) =
     (if el_get lang XML_LANG = Some (asc ''ja'') \<and> str_strip (itertext_join lang) \<noteq> []
      then Some (str_strip (itertext_join lang))
      else lang_text_all_loop rest)"

definition lang_text_all :: "elem option \<Rightarrow> ustr option" where
  "lang_text_all detail_elem =
     (case detail_elem of
        None \<Rightarrow> None
      | Some d \<Rightarrow> lang_text_all_loop (findall d [Child (pi ''Lang'')]))"

text \<open>
  The character class of the two trimming patterns of \<open>normalize_partner_label\<close>:
  ideographic comma U+3001, fullwidth comma U+FF0C, comma, and \<open>\s\<close>.
\<close>

definition is_comma_ws :: "nat \<Rightarrow> bool" where
  "is_comma_ws c \<longleftrightarrow> c = 12289 \<or> c = 65292 \<or> c = 44 \<or> isspace c"

text \<open>The two noise tokens: U+7B49 ("tou") and U+306A U+3069 ("nado").\<close>

definition tok_tou :: ustr where
  "tok_tou = [31561]"

definition tok_nado :: ustr where
  "tok_nado = [12394, 12393]"

text \<open>
  \<open>drop_suffix tok s\<close>: \<open>s\<close> without its final \<open>tok\<close>, when \<open>s\<close> ends with \<open>tok\<close>.
\<close>

definition drop_suffix :: "ustr \<Rightarrow> ustr \<Rightarrow> ustr option" where
  "drop_suffix tok s =
     (if prefix (rev tok) (rev s) then Some (rev (drop (length tok) (rev s))) else None)"

text \<open>
  \<open>re.sub(r'(tou|nado)$', '', s)\<close>.  Without \<open>re.MULTILINE\<close>, \<open>$\<close> matches at the end of
  the string and also just before a final newline, which then stays.
\<close>

definition re_sub_noise_end :: "ustr \<Rightarrow> ustr" where
  "re_sub_noise_end s =
     (case drop_suffix tok_tou s of Some r \<Rightarrow> r | None \<Rightarrow>
      (case drop_suffix tok_nado s of Some r \<Rightarrow> r | None \<Rightarrow>
       (case drop_suffix (tok_tou @ [10]) s of Some r \<Rightarrow> r @ [10] | None \<Rightarrow>
        (case drop_suffix (tok_nado @ [10]) s of Some r \<Rightarrow> r @ [10] | None \<Rightarrow> s))))"

text \<open>\<open>re.sub(r'^(tou|nado)', '', s)\<close>\<close>

definition re_sub_noise_start :: "ustr \<Rightarrow> ustr" where
  "re_sub_noise_start s =
     (if prefix tok_tou s then drop (length tok_tou) s
      else if prefix tok_nado s then drop (length tok_nado) s
      else s)"

definition normalize_partner_label :: "ustr option \<Rightarrow> ustr option" where
  "normalize_partner_label s0 =
     (if \<not> truthy s0 then None
      else
        let s = str_strip (str_of s0);
            \<comment> \<open>the two \<open>re.sub\<close> calls that remove a leading and a trailing run of the class\<close>
            s = dropWhile is_comma_ws s;
            s = rev (dropWhile is_comma_ws (rev s))
        in if s = [] then None
           else if s = tok_tou \<or> s = tok_nado then None
           else
             let s = str_strip (re_sub_noise_end s);
                 s = str_strip (re_sub_noise_start s)
             in if s = [] then None else Some s)"

definition detail_text_full :: "elem option \<Rightarrow> ustr option" where
  "detail_text_full detail_el =
     (case detail_el of
        None \<Rightarrow> None
      | Some d \<Rightarrow>
          let s = lang_text_all (Some d);
              s = (if \<not> truthy s then py_or (text_ja (Some d)) (get_text_direct (Some d)) else s)
          in if \<not> truthy s then None
             else normalize_partner_label (Some (str_strip (str_of s))))"

text \<open>The first loop of \<open>extract_partner_group_and_items\<close>, with its \<open>break\<close>.\<close>

fun class_label_loop :: "elem list \<Rightarrow> ustr option" where
  "class_label_loop [] = None"
| "class_label_loop (det # rest) =
     (let s = detail_text_full (Some det)
      in if truthy s then s else class_label_loop rest)"

text \<open>The second loop, appending to \<open>items\<close>.\<close>

fun items_loop :: "elem list \<Rightarrow> ustr list \<Rightarrow> ustr list" where
  "items_loop [] items = items"
| "items_loop (it # rest) items =
     (let s = detail_text_full (Some it)
      in if truthy s then items_loop rest (items @ [str_of s]) else items_loop rest items)"

text \<open>
  The deduplication loop, with its set \<open>seen\<close> and its output list (the same loop is the
  local function \<open>uniq\<close> of \<open>extract_section_texts\<close> in 31_rawdata2women.py).
\<close>

fun uniq_loop :: "'a list \<Rightarrow> 'a set \<Rightarrow> 'a list \<Rightarrow> 'a list" where
  "uniq_loop [] seen out = out"
| "uniq_loop (n # ns) seen out =
     (if n \<notin> seen then uniq_loop ns (insert n seen) (out @ [n]) else uniq_loop ns seen out)"

definition uniq :: "'a list \<Rightarrow> 'a list" where
  "uniq seq = uniq_loop seq {} []"

definition extract_partner_group_and_items :: "elem \<Rightarrow> ustr option \<times> ustr list" where
  "extract_partner_group_and_items drug_elem =
     (case find_first drug_elem [Child (pi ''DrugName'')] of
        None \<Rightarrow> (None, [])
      | Some dn \<Rightarrow>
          let class_label = class_label_loop (findall dn [Child (pi ''Detail'')]);
              items = items_loop (findall dn [Child (pi ''SimpleList''), Child (pi ''Item''),
                                             Child (pi ''Detail'')]) [];
              uniq_items = uniq_loop items {} []
          in (class_label, uniq_items))"

text \<open>One entry of \<open>flat\<close> (the key \<open>group\<close> is the field \<open>grp\<close>).\<close>

record interaction =
  partner :: ustr
  grp :: "ustr option"
  symptoms :: "ustr option"
  mechanism :: "ustr option"
  category :: ustr

text \<open>The category strings: "heiyou kinki" (contraindicated) and "heiyou chuui" (caution).\<close>

definition CAT_CONTRA :: ustr where
  "CAT_CONTRA = [20341, 29992, 31105, 24524]"

definition CAT_CAUTION :: ustr where
  "CAT_CAUTION = [20341, 29992, 27880, 24847]"

definition get_symptoms_and_mechanism :: "elem \<Rightarrow> ustr option \<times> ustr option" where
  "get_symptoms_and_mechanism drug =
     (let symptoms =
            py_or (py_or (lang_text_all (find_first drug [Child (pi ''ClinSymptomsAndMeasures''),
                                                           Child (pi ''Detail'')]))
                         (text_ja (find_first drug [Child (pi ''ClinSymptomsAndMeasures''),
                                                    Child (pi ''Detail'')])))
                  (get_text (Some drug) [Child (pi ''ClinSymptomsAndMeasures'')]);
          mechanism =
            py_or (py_or (lang_text_all (find_first drug [Child (pi ''MechanismAndRiskFactors''),
                                                           Child (pi ''Detail'')]))
                         (text_ja (find_first drug [Child (pi ''MechanismAndRiskFactors''),
                                                    Child (pi ''Detail'')])))
                  (get_text (Some drug) [Child (pi ''MechanismAndRiskFactors'')])
      in (symptoms, mechanism))"

text \<open>The inner loop \<open>for p in items: flat.append({...})\<close>.\<close>

fun append_items ::
  "interaction list \<Rightarrow> ustr list \<Rightarrow> ustr option \<Rightarrow> ustr option \<Rightarrow> ustr option \<Rightarrow> ustr
   \<Rightarrow> interaction list" where
  "append_items flat [] g sy me cat = flat"
| "append_items flat (p # ps) g sy me cat =
     append_items
       (flat @ [\<lparr>partner = p, grp = g, symptoms = sy, mechanism = me, category = cat\<rparr>])
       ps g sy me cat"

text \<open>The body of the two \<open>for drug in ...\<close> loops, which differ in the category only.\<close>

definition flat_step :: "ustr \<Rightarrow> interaction list \<Rightarrow> elem \<Rightarrow> interaction list" where
  "flat_step cat flat drug =
     (case extract_partner_group_and_items drug of (group_label, items) \<Rightarrow>
      (case get_symptoms_and_mechanism drug of (sy, me) \<Rightarrow>
         if items \<noteq> [] then append_items flat items group_label sy me cat
         else if truthy group_label
         then flat @ [\<lparr>partner = str_of group_label, grp = group_label, symptoms = sy,
                       mechanism = me, category = cat\<rparr>]
         else flat))"

fun flat_loop :: "ustr \<Rightarrow> interaction list \<Rightarrow> elem list \<Rightarrow> interaction list" where
  "flat_loop cat flat [] = flat"
| "flat_loop cat flat (drug # drugs) = flat_loop cat (flat_step cat flat drug) drugs"

fun summary_loop :: "elem list \<Rightarrow> ustr list \<Rightarrow> ustr list" where
  "summary_loop [] parts = parts"
| "summary_loop (det # dets) parts =
     (let s = py_or (py_or (lang_text_all (Some det)) (text_ja (Some det)))
                    (get_text_direct (Some det))
      in if truthy s then summary_loop dets (parts @ [str_of s]) else summary_loop dets parts)"

definition contra_drugs :: "elem \<Rightarrow> elem list" where
  "contra_drugs root =
     findall root [Child (pi ''Interactions''), Child (pi ''ContraIndicatedCombinations''),
                   Descendant (pi ''Drug'')]"

definition caution_drugs :: "elem \<Rightarrow> elem list" where
  "caution_drugs root =
     findall root [Child (pi ''Interactions''), Child (pi ''PrecautionsForCombinations''),
                   Descendant (pi ''Drug'')]"

record interactions =
  summary :: "ustr list"
  flat :: "interaction list"

definition collect_interactions_flat :: "elem \<Rightarrow> interactions" where
  "collect_interactions_flat root =
     (let summary_parts =
            summary_loop
              (findall root [Child (pi ''Interactions''), Child (pi ''SummaryOfCombination''),
                             Descendant (pi ''Detail'')]) [];
          flat = flat_loop CAT_CONTRA [] (contra_drugs root);
          flat = flat_loop CAT_CAUTION flat (caution_drugs root)
      in \<lparr>summary = summary_parts, flat = flat\<rparr>)"

section \<open>31_rawdata2women.py\<close>

definition PREGNANT_TAGS :: "ustr set" where
  "PREGNANT_TAGS = {asc ''UseInPregnant'', asc ''UseInPregnantWomen'', asc ''Pregnant''}"

definition NURSING_TAGS :: "ustr set" where
  "NURSING_TAGS =
     {asc ''UseInNursing'', asc ''UseInNursingMothers'', asc ''Nursing'', asc ''BreastFeeding''}"

definition LANG_LOCAL :: ustr where
  "LANG_LOCAL = asc ''Lang''"

text \<open>\<open>tag.split('}')[-1]\<close>: what follows the last \<open>}\<close> (code point 125) of the tag.\<close>

definition local_name :: "ustr \<Rightarrow> ustr" where
  "local_name t = rev (takeWhile (\<lambda>c. c \<noteq> 125) (rev t))"

text \<open>\<open>re.sub(r"\n{3,}", "\n\n", s)\<close>: every run of three or more newlines becomes two.\<close>

function re_sub_newlines :: "ustr \<Rightarrow> ustr" where
  "re_sub_newlines [] = []"
| "re_sub_newlines (c # cs) =
     (if c = 10
      then (if 3 \<le> length (takeWhile (\<lambda>x. x = 10) (c # cs)) then [10, 10]
            else takeWhile (\<lambda>x. x = 10) (c # cs))
           @ re_sub_newlines (dropWhile (\<lambda>x. x = 10) cs)
      else c # re_sub_newlines cs)"
  by pat_completeness auto
termination
  by (relation "measure length") (auto simp: length_dropWhile_le le_imp_less_Suc)

definition textnorm :: "ustr option \<Rightarrow> ustr option" where
  "textnorm s0 =
     (case s0 of
        None \<Rightarrow> None
      | Some s \<Rightarrow>
          let s = str_replace [13] [10] (str_replace [13, 10] [10] s);
              s = re_sub_runs (\<lambda>c. c = 32 \<or> c = 9 \<or> c = 12288) [32] s;
              s = re_sub_newlines s
          in Some (str_strip s))"

text \<open>
  \<open>lang.lower()\<close>, on the ASCII letters.  It is only asked whether the result starts with
  "ja", and no code point outside ASCII has a lower case that starts with "j" or "a".
\<close>

definition str_lower :: "ustr \<Rightarrow> ustr" where
  "str_lower s = map (\<lambda>c. if 65 \<le> c \<and> c \<le> 90 then c + 32 else c) s"

text \<open>\<open>sep.join(parts)\<close>\<close>

fun str_join :: "ustr \<Rightarrow> ustr list \<Rightarrow> ustr" where
  "str_join sep [] = []"
| "str_join sep [x] = x"
| "str_join sep (x # y # ys) = x @ sep @ str_join sep (y # ys)"

text \<open>The loop that collects the hits over \<open>root.iter()\<close>.\<close>

fun hits_loop :: "elem list \<Rightarrow> ustr set \<Rightarrow> elem list \<Rightarrow> elem list" where
  "hits_loop [] target_names hits = hits"
| "hits_loop (e # es) target_names hits =
     (if local_name (tag e) \<in> target_names then hits_loop es target_names (hits @ [e])
      else hits_loop es target_names hits)"

text \<open>
  The inner loop \<open>for n in h.iter()\<close>, on the pair of the lists \<open>ja_texts\<close> and
  \<open>other_texts\<close>, and the outer loop over the hits.
\<close>

fun lang_nodes_loop :: "elem list \<Rightarrow> ustr list \<times> ustr list \<Rightarrow> ustr list \<times> ustr list" where
  "lang_nodes_loop [] st = st"
| "lang_nodes_loop (n # ns) (ja_texts, other_texts) =
     (if local_name (tag n) = LANG_LOCAL
      then
        let t = textnorm (Some (itertext_join n))
        in if \<not> truthy t then lang_nodes_loop ns (ja_texts, other_texts)
           else
             let lang = py_or (el_get n XML_LANG) (el_get n (asc ''lang''))
             in if truthy lang \<and> prefix (asc ''ja'') (str_lower (str_of lang))
                then lang_nodes_loop ns (ja_texts @ [str_of t], other_texts)
                else lang_nodes_loop ns (ja_texts, other_texts @ [str_of t])
      else lang_nodes_loop ns (ja_texts, other_texts))"

fun hits_lang_loop :: "elem list \<Rightarrow> ustr list \<times> ustr list \<Rightarrow> ustr list \<times> ustr list" where
  "hits_lang_loop [] st = st"
| "hits_lang_loop (h # hs) st = hits_lang_loop hs (lang_nodes_loop (iter_elem h) st)"

text \<open>
  \<open>extract_section_texts\<close>, on the parsed document: \<open>None\<close> stands for an empty or absent
  \<open>xml_str\<close> and for one that \<open>ET.fromstring\<close> rejects, the two cases that return
  \<open>(None, None)\<close> before the tree is looked at.
\<close>

definition extract_section_texts :: "elem option \<Rightarrow> ustr set \<Rightarrow> ustr option \<times> ustr option" where
  "extract_section_texts doc target_names =
     (case doc of
        None \<Rightarrow> (None, None)
      | Some root \<Rightarrow>
          (case hits_loop (iter_elem root) target_names [] of
             [] \<Rightarrow> (None, None)
           | h0 # hs \<Rightarrow>
               let first_id = el_get h0 (asc ''id'')
               in (case hits_lang_loop (h0 # hs) ([], []) of (ja_texts, other_texts) \<Rightarrow>
                     if ja_texts = [] \<and> other_texts = []
                     then (textnorm (Some (itertext_join h0)), first_id)
                     else
                       let parts =
                             (if ja_texts \<noteq> [] then [str_join [10, 10] (uniq ja_texts)] else [])
                             @ (if other_texts \<noteq> [] then [str_join [10, 10] (uniq other_texts)]
                                else [])
                       in ((if parts \<noteq> [] then Some (str_strip (str_join [10, 10] parts))
                            else None),
                           first_id))))"

text \<open>
  A document with two pregnancy sections under different namespaces, the first one nested
  deeper than the second, and one without any.
\<close>

definition ex_doc_two :: elem where
  "ex_doc_two =
     Elem (asc ''{urn:a}Root'') [] None None
       [Elem (asc ''{urn:a}Section'') [(asc ''id'', asc ''s1'')] None None
          [Elem (asc ''{urn:a}UseInPregnant'') [(asc ''id'', asc ''p1'')] (Some (asc ''first'')) None
             []],
        Elem (asc ''Pregnant'') [(asc ''id'', asc ''p2'')] (Some (asc ''second'')) None []]"

definition ex_doc_none :: elem where
  "ex_doc_none =
     Elem (asc ''{urn:a}Root'') [] None None
       [Elem (asc ''{urn:a}Section'') [(asc ''id'', asc ''s1'')] (Some (asc ''text'')) None []]"

section \<open>Label normalization as the specification words it\<close>

text \<open>
  The specification's \<open>normalizeLabel\<close>, written from its sentences and not from the code:
  trim surrounding whitespace and comma-like punctuation; a string that is exactly one of
  the two noise tokens is absent; otherwise a trailing and a leading occurrence of a noise
  token are removed and the result is trimmed again with \<open>retrim\<close>; an empty result is absent.
\<close>

definition trim_label :: "ustr \<Rightarrow> ustr" where
  "trim_label s = rev (dropWhile is_comma_ws (rev (dropWhile is_comma_ws s)))"

definition strip_trailing_token :: "ustr \<Rightarrow> ustr" where
  "strip_trailing_token s =
     (if suffix tok_tou s then take (length s - length tok_tou) s
      else if suffix tok_nado s then take (length s - length tok_nado) s
      else s)"

definition strip_leading_token :: "ustr \<Rightarrow> ustr" where
  "strip_leading_token s =
     (if prefix tok_tou s then drop (length tok_tou) s
      else if prefix tok_nado s then drop (length tok_nado) s
      else s)"

definition normalizeLabel_spec :: "(ustr \<Rightarrow> ustr) \<Rightarrow> ustr option \<Rightarrow> ustr option" where
  "normalizeLabel_spec retrim s0 =
     (case s0 of
        None \<Rightarrow> None
      | Some s \<Rightarrow>
          let t = trim_label s
          in if t = tok_tou \<or> t = tok_nado then None
             else
               let u = retrim (strip_leading_token (strip_trailing_token t))
               in if u = [] then None else Some u)"

text \<open>Example inputs (code points of Japanese sentences) used below.\<close>

text \<open>
  A sentence of 29 code points: "do not administer to pregnant women (U+6295 U+4E0E ...). in case
  the therapeutic benefit exceeds the risk"; it holds a score-3 and a score-1 phrase.
\<close>

definition ex_both :: ustr where
  "ex_both =
     [22922, 23142, 12395, 12399, 25237, 19982, 12375, 12394, 12356, 12371, 12392, 12290,
      27835, 30274, 19978, 12398, 26377, 30410, 24615, 12364, 21361, 38522, 24615, 12434,
      19978, 22238, 12427, 22580, 21512]"

text \<open>The six code points of the spec's "unrelated sentence".\<close>

definition ex_unrelated :: ustr where
  "ex_unrelated = [28961, 38306, 20418, 12398, 25991, 31456]"

section \<open>Example documents\<close>

text \<open>
  Builders for example elements: a Japanese language variant, a label element holding one,
  and an element with children only.
\<close>

definition lang_ja :: "ustr \<Rightarrow> elem" where
  "lang_ja s = Elem (pi ''Lang'') [(XML_LANG, asc ''ja'')] (Some s) None []"

definition detail_ja :: "ustr \<Rightarrow> elem" where
  "detail_ja s = Elem (pi ''Detail'') [] None None [lang_ja s]"

definition node :: "string \<Rightarrow> elem list \<Rightarrow> elem" where
  "node name cs = Elem (pi name) [] None None cs"

text \<open>
  Example strings: "CYP3A sogaizai" (CYP3A inhibitor), "itoraconazoru", "kurarisuromaishin",
  "kou-korin-zai" (anticholinergic), "QT enchou" and "taisha sogai".
\<close>

definition s_cyp :: ustr where
  "s_cyp = [67, 89, 80, 51, 65, 38459, 23475, 21092]"

definition s_itra :: ustr where
  "s_itra = [12452, 12488, 12521, 12467, 12490, 12478, 12540, 12523]"

definition s_clari :: ustr where
  "s_clari = [12463, 12521, 12522, 12473, 12525, 12510, 12452, 12471, 12531]"

definition s_anti :: ustr where
  "s_anti = [25239, 12467, 12522, 12531, 21092]"

definition s_qt :: ustr where
  "s_qt = [81, 84, 24310, 38263]"

definition s_mech :: ustr where
  "s_mech = [20195, 35613, 38459, 23475]"

text \<open>
  A drug-reference block with a class label and three items, the third a repeat of the first
  with a noise token; a block with a label only; a block whose first label is a noise token;
  a block whose only label is a noise token; a document holding a caution block before a
  contraindicated block; a label element whose variant is tagged "ja-JP"; a label element
  whose Japanese variant has a child element.
\<close>

definition ex_drug_cyp :: elem where
  "ex_drug_cyp =
     node ''Drug''
       [node ''DrugName''
          [detail_ja s_cyp,
           node ''SimpleList''
             [node ''Item'' [detail_ja s_itra],
              node ''Item'' [detail_ja s_clari],
              node ''Item'' [detail_ja (s_itra @ tok_tou)]]],
        node ''ClinSymptomsAndMeasures'' [detail_ja s_qt],
        node ''MechanismAndRiskFactors'' [detail_ja s_mech]]"

definition ex_drug_anti :: elem where
  "ex_drug_anti = node ''Drug'' [node ''DrugName'' [detail_ja s_anti]]"

definition ex_drug_two_labels :: elem where
  "ex_drug_two_labels = node ''Drug'' [node ''DrugName'' [detail_ja tok_tou, detail_ja s_anti]]"

definition ex_drug_noise_label :: elem where
  "ex_drug_noise_label = node ''Drug'' [node ''DrugName'' [detail_ja tok_tou]]"

definition ex_root :: elem where
  "ex_root =
     node ''PackageInsert''
       [node ''Interactions''
          [node ''PrecautionsForCombinations'' [node ''Group'' [ex_drug_anti]],
           node ''ContraIndicatedCombinations'' [ex_drug_cyp]]]"

definition ex_detail_ja_jp :: elem where
  "ex_detail_ja_jp =
     Elem (pi ''Detail'') [] None None
       [Elem (pi ''Lang'') [(XML_LANG, asc ''ja-JP'')] (Some (asc ''abc'')) None []]"

definition ex_detail_nested :: elem where
  "ex_detail_nested =
     Elem (pi ''Detail'') [] None None
       [Elem (pi ''Lang'') [(XML_LANG, asc ''en'')] (Some (asc ''x'')) None [],
        Elem (pi ''Lang'') [(XML_LANG, asc ''ja'')] (Some (asc '' ab'')) None
          [Elem (pi ''Sub'') [] (Some (asc ''c'')) (Some (asc ''d '')) []]]"

section \<open>Facts about the string primitives\<close>

lemma re_search_drop: "rmatch r (drop n t) \<noteq> [] \<Longrightarrow> re_search r t"
proof (induction t arbitrary: n)
  case Nil
  then show ?case by simp
next
  case (Cons c cs)
  then show ?case by (cases n) auto
qed

lemmas strip_defs = str_strip_def str_lstrip_def str_rstrip_def isspace_def

section \<open>The classification engine\<close>

lemma classify_loop_first:
  "rules = pre @ (score, rx, tg) # post \<Longrightarrow> rx t \<Longrightarrow>
   \<forall>r \<in> set pre. \<not> fst (snd r) t \<Longrightarrow> classify_loop t rules = (score, tg)"
  by (induction pre arbitrary: rules) auto

lemma classify_loop_none:
  "\<forall>r \<in> set rules. \<not> fst (snd r) t \<Longrightarrow> classify_loop t rules = (0, asc ''unclear'')"
  by (induction rules) auto

lemma classify_loop_max:
  "sorted_wrt (\<lambda>a b. b \<le> a) (map fst rules) \<Longrightarrow> r \<in> set rules \<Longrightarrow> fst (snd r) t \<Longrightarrow>
   fst r \<le> fst (classify_loop t rules)"
  by (induction rules) auto

lemma strip_examples:
  "str_strip [32, 32] = []" "str_strip ex_unrelated \<noteq> []" "str_strip ex_both \<noteq> []"
  by (simp_all add: strip_defs ex_unrelated_def ex_both_def)

lemma norm_ex_unrelated: "normalize_for_match ex_unrelated = ex_unrelated"
  by (simp add: ex_unrelated_def normalize_for_match_def strip_defs)

lemma norm_ex_both: "normalize_for_match ex_both = ex_both"
  by (simp add: ex_both_def normalize_for_match_def strip_defs)

lemma ex_unrelated_no3: "\<not> re_search preg_rx3 ex_unrelated"
  by (simp add: ex_unrelated_def preg_rx3_def touyo_or_shiyou_def shiyou_or_touyo_def)

lemma ex_unrelated_no2: "\<not> re_search preg_rx2 ex_unrelated"
  by (simp add: ex_unrelated_def preg_rx2_def touyo_or_shiyou_def shiyou_or_touyo_def)

lemma ex_unrelated_no1: "\<not> re_search preg_rx1 ex_unrelated"
  by (simp add: ex_unrelated_def preg_rx1_def touyo_or_shiyou_def shiyou_or_touyo_def)

lemma ex_both_match3: "re_search preg_rx3 ex_both"
  by (rule re_search_drop [of _ 4]) (simp add: ex_both_def preg_rx3_def touyo_or_shiyou_def shiyou_or_touyo_def)

lemma ex_both_match1: "re_search preg_rx1 ex_both"
  by (rule re_search_drop [of _ 12]) (simp add: ex_both_def preg_rx1_def touyo_or_shiyou_def shiyou_or_touyo_def)

text \<open>
  C2.  For a text that is not blank (its \<open>strip()\<close> is non-empty) and any rule table,
  \<open>classify\<close> returns the score and tag of the first rule, in table order, whose pattern
  matches the normalized text.  When the table is ordered by descending score, no matching
  rule has a higher score than the result.  For the pregnancy table: a text whose normalized
  form matches the score-3 pattern and the score-1 pattern gets the score-3 result.
\<close>

theorem classify_first_match:
  assumes "str_strip s \<noteq> []"
  shows "(rules = pre @ (score, rx, tg) # post \<and> rx (normalize_for_match s)
            \<and> (\<forall>r \<in> set pre. \<not> fst (snd r) (normalize_for_match s))
          \<longrightarrow> classify (Some s) rules = (score, tg))
       \<and> (sorted_wrt (\<lambda>a b. b \<le> a) (map fst rules) \<and> r \<in> set rules
            \<and> fst (snd r) (normalize_for_match s)
          \<longrightarrow> fst r \<le> fst (classify (Some s) rules))
       \<and> (re_search preg_rx3 (normalize_for_match s) \<and> re_search preg_rx1 (normalize_for_match s)
          \<longrightarrow> classify (Some s) PREG_RULES = (3, asc ''contraindicated''))"
proof -
  have c: "classify (Some s) rs = classify_loop (normalize_for_match s) rs" for rs
    using assms by (simp add: classify_def)
  have 1: "rules = pre @ (score, rx, tg) # post \<and> rx (normalize_for_match s)
           \<and> (\<forall>r \<in> set pre. \<not> fst (snd r) (normalize_for_match s))
         \<longrightarrow> classify (Some s) rules = (score, tg)"
    unfolding c using classify_loop_first [of rules pre score rx tg post] by blast
  have 2: "sorted_wrt (\<lambda>a b. b \<le> a) (map fst rules) \<and> r \<in> set rules
           \<and> fst (snd r) (normalize_for_match s)
         \<longrightarrow> fst r \<le> fst (classify (Some s) rules)"
    unfolding c using classify_loop_max [of rules r] by blast
  have 3: "re_search preg_rx3 (normalize_for_match s) \<and> re_search preg_rx1 (normalize_for_match s)
         \<longrightarrow> classify (Some s) PREG_RULES = (3, asc ''contraindicated'')"
    unfolding c by (simp add: PREG_RULES_def PREG_RULES_RAW_def re_compile_def)
  from 1 2 3 show ?thesis by blast
qed

theorem classify_first_match_witness:
  "str_strip ex_both \<noteq> []
   \<and> re_search preg_rx3 (normalize_for_match ex_both)
   \<and> re_search preg_rx1 (normalize_for_match ex_both)
   \<and> sorted_wrt (\<lambda>a b. b \<le> a) (map fst PREG_RULES)
   \<and> classify (Some ex_both) PREG_RULES = (3, asc ''contraindicated'')"
proof -
  have nb: "str_strip ex_both \<noteq> []" by (rule strip_examples)
  have m: "re_search preg_rx3 (normalize_for_match ex_both)"
    "re_search preg_rx1 (normalize_for_match ex_both)"
    by (simp_all add: norm_ex_both ex_both_match3 ex_both_match1)
  have srt: "sorted_wrt (\<lambda>a b. b \<le> a) (map fst PREG_RULES)"
    by (simp add: PREG_RULES_def PREG_RULES_RAW_def)
  show ?thesis
    using classify_first_match [OF nb, of PREG_RULES "[]" 3 "re_compile preg_rx3"
        "asc ''contraindicated''" "tl PREG_RULES" "hd PREG_RULES"] nb m srt
    by blast
qed

lemma classify_untyped_list: "classify_untyped text (Some rs) = Inr (classify text rs)"
  by (simp add: classify_untyped_def classify_def split: option.splits)

text \<open>
  C3 (as amended).  With a rule table that is a list, the empty one included, \<open>classify\<close>
  returns and gives the fixed defaults: \<open>(0, "none")\<close> for an absent and for a blank text,
  \<open>(0, "unclear")\<close> for a text that is not blank and matches no rule of the table.  An absent
  or blank text gives \<open>(0, "none")\<close> whatever the table is, an unset one included, since the
  table is not read.  The call fails in one case only: an unset table with a text that is
  not blank.
\<close>

theorem classify_default:
  "classify_untyped None rules = Inr (0, asc ''none'')
   \<and> (str_strip s = [] \<longrightarrow> classify_untyped (Some s) rules = Inr (0, asc ''none''))
   \<and> (str_strip s \<noteq> [] \<and> (\<forall>r \<in> set rs. \<not> fst (snd r) (normalize_for_match s))
        \<longrightarrow> classify_untyped (Some s) (Some rs) = Inr (0, asc ''unclear''))
   \<and> (str_strip s \<noteq> [] \<longrightarrow> classify_untyped (Some s) (Some []) = Inr (0, asc ''unclear''))
   \<and> classify_untyped text (Some rs) = Inr (classify text rs)
   \<and> ((\<exists>e. classify_untyped text rules = Inl e)
        \<longleftrightarrow> rules = None \<and> (\<exists>s. text = Some s \<and> str_strip s \<noteq> []))
   \<and> classify None rs = (0, asc ''none'')
   \<and> (str_strip s = [] \<longrightarrow> classify (Some s) rs = (0, asc ''none''))
   \<and> (str_strip s \<noteq> [] \<and> (\<forall>r \<in> set rs. \<not> fst (snd r) (normalize_for_match s))
        \<longrightarrow> classify (Some s) rs = (0, asc ''unclear''))
   \<and> (str_strip s \<noteq> [] \<longrightarrow> classify (Some s) [] = (0, asc ''unclear''))"
proof -
  have 1: "classify_untyped None rules = Inr (0, asc ''none'')"
    by (simp add: classify_untyped_def)
  have 2: "str_strip s = [] \<longrightarrow> classify_untyped (Some s) rules = Inr (0, asc ''none'')"
    by (simp add: classify_untyped_def)
  have 3: "str_strip s \<noteq> [] \<and> (\<forall>r \<in> set rs. \<not> fst (snd r) (normalize_for_match s))
        \<longrightarrow> classify_untyped (Some s) (Some rs) = Inr (0, asc ''unclear'')"
    by (simp add: classify_untyped_def classify_loop_none)
  have 4: "str_strip s \<noteq> [] \<longrightarrow> classify_untyped (Some s) (Some []) = Inr (0, asc ''unclear'')"
    by (simp add: classify_untyped_def)
  have 5: "classify_untyped text (Some rs) = Inr (classify text rs)"
    by (rule classify_untyped_list)
  have 6: "(\<exists>e. classify_untyped text rules = Inl e)
        \<longleftrightarrow> rules = None \<and> (\<exists>s. text = Some s \<and> str_strip s \<noteq> [])"
  proof (cases rules)
    case None
    then show ?thesis by (cases "text") (simp_all add: classify_untyped_def)
  next
    case (Some rs')
    then show ?thesis by (simp add: classify_untyped_list)
  qed
  have 7: "classify None rs = (0, asc ''none'')"
    and 8: "str_strip s = [] \<longrightarrow> classify (Some s) rs = (0, asc ''none'')"
    and 9: "str_strip s \<noteq> [] \<and> (\<forall>r \<in> set rs. \<not> fst (snd r) (normalize_for_match s))
        \<longrightarrow> classify (Some s) rs = (0, asc ''unclear'')"
    and 10: "str_strip s \<noteq> [] \<longrightarrow> classify (Some s) [] = (0, asc ''unclear'')"
    by (simp_all add: classify_def classify_loop_none)
  from 1 2 3 4 5 6 7 8 9 10 show ?thesis by blast
qed

theorem classify_default_witness:
  "str_strip [32, 32] = []
   \<and> classify_untyped (Some [32, 32]) None = Inr (0, asc ''none'')
   \<and> classify_untyped (Some [32, 32]) (Some PREG_RULES) = Inr (0, asc ''none'')
   \<and> str_strip ex_unrelated \<noteq> []
   \<and> \<not> re_search preg_rx3 (normalize_for_match ex_unrelated)
   \<and> \<not> re_search preg_rx2 (normalize_for_match ex_unrelated)
   \<and> \<not> re_search preg_rx1 (normalize_for_match ex_unrelated)
   \<and> classify_untyped (Some ex_unrelated) (Some PREG_RULES) = Inr (0, asc ''unclear'')
   \<and> classify_untyped (Some ex_unrelated) (Some []) = Inr (0, asc ''unclear'')
   \<and> classify (Some ex_unrelated) PREG_RULES = (0, asc ''unclear'')"
proof -
  have no: "\<forall>r \<in> set PREG_RULES. \<not> fst (snd r) (normalize_for_match ex_unrelated)"
    by (simp add: PREG_RULES_def PREG_RULES_RAW_def re_compile_def norm_ex_unrelated
        ex_unrelated_no3 ex_unrelated_no2 ex_unrelated_no1)
  show ?thesis
    using classify_default [of None "[32, 32]" PREG_RULES]
      classify_default [of "Some PREG_RULES" "[32, 32]" PREG_RULES]
      classify_default [of None ex_unrelated PREG_RULES]
      strip_examples(1,2) no
    by (simp add: norm_ex_unrelated ex_unrelated_no3 ex_unrelated_no2 ex_unrelated_no1)
qed

text \<open>
  The claim as stated has \<open>classify\<close> never fail.  With the unset table and the "unrelated
  sentence" of the specification, a text that is not blank, the loop over the table raises
  \<open>TypeError\<close>.
\<close>

theorem classify_unset_table_counterexample:
  "str_strip ex_unrelated \<noteq> []
   \<and> classify_untyped (Some ex_unrelated) None = Inl TypeError"
  using strip_examples(2) by (simp add: classify_untyped_def)

text \<open>
  C4.  For every score in {0,1,2,3} and every flag mapping, the pregnancy and the nursing
  confidence equal \<open>min 3 (score + b)\<close>, where \<open>b\<close> counts those of the two boost keys that are
  present with value true; the confidence lies in [0,3], and score 3 with both boost flags
  true gives 3.
\<close>

theorem confidence_clamp:
  assumes "sc \<in> {0, 1, 2, 3}"
  shows "preg_conf sc flags =
           min 3 (sc + int (length (filter (\<lambda>k. flags k = Some True)
                                      [asc ''has_human_terato'', asc ''has_animal_terato''])))
       \<and> nurs_conf sc flags =
           min 3 (sc + int (length (filter (\<lambda>k. flags k = Some True)
                                      [asc ''milk_transfer_detected'', asc ''adverse_infant_effects''])))
       \<and> 0 \<le> preg_conf sc flags \<and> preg_conf sc flags \<le> 3
       \<and> 0 \<le> nurs_conf sc flags \<and> nurs_conf sc flags \<le> 3
       \<and> (flags (asc ''has_human_terato'') = Some True
            \<and> flags (asc ''has_animal_terato'') = Some True \<longrightarrow> preg_conf 3 flags = 3)"
  using assms by (auto simp: preg_conf_def nurs_conf_def score_base_def flag_bonus_def)

theorem confidence_clamp_witness:
  "(3::int) \<in> {0, 1, 2, 3}
   \<and> preg_conf 3 [asc ''has_human_terato'' \<mapsto> True, asc ''has_animal_terato'' \<mapsto> True] = 3
   \<and> nurs_conf 3 [asc ''has_human_terato'' \<mapsto> True, asc ''has_animal_terato'' \<mapsto> True] = 3"
proof -
  have a: "(3::int) \<in> {0, 1, 2, 3}" by simp
  show ?thesis
    using confidence_clamp [OF a, of "[asc ''has_human_terato'' \<mapsto> True, asc ''has_animal_terato'' \<mapsto> True]"]
    by (simp add: asc_def)
qed

section \<open>The partner/group extractor\<close>

lemma upt_0_Suc: "[0..<Suc n] = 0 # map Suc [0..<n]"
  by (simp add: upt_conv_Cons map_Suc_upt del: upt_Suc)

lemma uniq_loop_step:
  "uniq_loop (x # xs) (set out) out =
     (if x \<in> set out then uniq_loop xs (set out) out
      else uniq_loop xs (set (out @ [x])) (out @ [x]))"
  by simp

lemma uniq_loop_eq:
  "uniq_loop xs (set out) out =
     out @ map (\<lambda>i. xs ! i) (filter (\<lambda>i. xs ! i \<notin> set out \<union> set (take i xs)) [0..<length xs])"
proof (induction xs arbitrary: out)
  case Nil
  then show ?case by simp
next
  case (Cons x xs)
  show ?case
  proof (cases "x \<in> set out")
    case True
    then have eq: "(y \<notin> set out \<and> y \<noteq> x \<and> R) = (y \<notin> set out \<and> R)" for y R by auto
    from True show ?thesis
      unfolding uniq_loop_step
      by (simp add: Cons.IH upt_0_Suc filter_map comp_def eq del: upt_Suc)
  next
    case False
    then show ?thesis
      unfolding uniq_loop_step using Cons.IH [of "out @ [x]"]
      by (simp add: upt_0_Suc filter_map comp_def conj_ac del: upt_Suc)
  qed
qed

lemma uniq_index: "uniq xs = map (\<lambda>i. xs ! i) (filter (\<lambda>i. xs ! i \<notin> set (take i xs)) [0..<length xs])"
  using uniq_loop_eq [of xs "[]"] by (simp add: uniq_def)

lemma uniq_loop_set: "set (uniq_loop xs (set out) out) = set out \<union> set xs"
proof (induction xs arbitrary: out)
  case Nil
  then show ?case by simp
next
  case (Cons x xs)
  show ?case unfolding uniq_loop_step using Cons.IH [of out] Cons.IH [of "out @ [x]"]
    by auto
qed

lemma uniq_loop_distinct: "distinct out \<Longrightarrow> distinct (uniq_loop xs (set out) out)"
proof (induction xs arbitrary: out)
  case Nil
  then show ?case by simp
next
  case (Cons x xs)
  show ?case unfolding uniq_loop_step using Cons.IH [of out] Cons.IH [of "out @ [x]"] Cons.prems
    by auto
qed

lemma items_loop_eq:
  "items_loop dets acc =
     acc @ map str_of (filter truthy (map (\<lambda>d. detail_text_full (Some d)) dets))"
  by (induction dets arbitrary: acc) (simp_all add: Let_def)


text \<open>
  C7.  The deduplication loop keeps exactly the first occurrence of every label, in the order
  of first occurrence: its result has no duplicates, has the same elements as the input, and
  consists of the input positions whose label did not occur at an earlier position.  The
  items returned by the partner/group extractor are this deduplication of the normalized
  non-empty item labels.  For ["A","B","A","C"] the result is ["A","B","C"].
\<close>

theorem uniq_first_occurrence:
  "distinct (uniq xs) \<and> set (uniq xs) = set xs
   \<and> uniq xs = map (\<lambda>i. xs ! i) (filter (\<lambda>i. xs ! i \<notin> set (take i xs)) [0..<length xs])
   \<and> (find_first drug [Child (pi ''DrugName'')] = Some dn \<longrightarrow>
        snd (extract_partner_group_and_items drug) =
          uniq (map str_of (filter truthy (map (\<lambda>d. detail_text_full (Some d))
                 (findall dn [Child (pi ''SimpleList''), Child (pi ''Item''), Child (pi ''Detail'')])))))
   \<and> uniq [asc ''A'', asc ''B'', asc ''A'', asc ''C''] = [asc ''A'', asc ''B'', asc ''C'']"
proof -
  have 1: "distinct (uniq xs)" using uniq_loop_distinct [of "[]" xs] by (simp add: uniq_def)
  have 2: "set (uniq xs) = set xs" using uniq_loop_set [of xs "[]"] by (simp add: uniq_def)
  have 4: "find_first drug [Child (pi ''DrugName'')] = Some dn \<longrightarrow>
        snd (extract_partner_group_and_items drug) =
          uniq (map str_of (filter truthy (map (\<lambda>d. detail_text_full (Some d))
                 (findall dn [Child (pi ''SimpleList''), Child (pi ''Item''), Child (pi ''Detail'')]))))"
    by (simp add: extract_partner_group_and_items_def uniq_def items_loop_eq Let_def)
  have 5: "uniq [asc ''A'', asc ''B'', asc ''A'', asc ''C''] = [asc ''A'', asc ''B'', asc ''C'']"
    by (simp add: uniq_def asc_def)
  from 1 2 uniq_index [of xs] 4 5 show ?thesis by blast
qed

section \<open>Label normalization\<close>

lemma rev_dropWhile_rev_Cons:
  "rev (dropWhile Q (rev (x # xs))) =
     (if \<forall>y \<in> set xs. Q y then (if Q x then [] else [x]) else x # rev (dropWhile Q (rev xs)))"
  by (simp add: dropWhile_append)

lemma rev_dropWhile_rev_all: "\<forall>y \<in> set xs. Q y \<Longrightarrow> rev (dropWhile Q (rev xs)) = []"
  by simp

lemma trim_commute:
  "rev (dropWhile Q (rev (dropWhile P xs))) = dropWhile P (rev (dropWhile Q (rev xs)))"
proof (induction xs)
  case Nil
  then show ?case by simp
next
  case (Cons x xs)
  show ?case
  proof (cases "P x")
    case True
    have "\<forall>y \<in> set xs. Q y \<Longrightarrow> rev (dropWhile Q (rev (dropWhile P xs))) = []"
      by (intro rev_dropWhile_rev_all) (auto dest: set_dropWhileD)
    with True Cons.IH show ?thesis
      by (simp only: rev_dropWhile_rev_Cons dropWhile.simps if_True split: if_splits) auto
  next
    case False
    then show ?thesis
      by (simp only: rev_dropWhile_rev_Cons dropWhile.simps if_False split: if_splits) auto
  qed
qed

lemma dropWhile_absorb:
  "(\<And>c. P c \<Longrightarrow> Q c) \<Longrightarrow> dropWhile Q (dropWhile P xs) = dropWhile Q xs"
  by (induction xs) auto

lemma isspace_comma_ws: "isspace c \<Longrightarrow> is_comma_ws c"
  by (simp add: is_comma_ws_def)

lemma trim_label_strip: 
  "rev (dropWhile is_comma_ws (rev (dropWhile is_comma_ws (str_strip s)))) = trim_label s"
proof -
  let ?P = isspace and ?Q = is_comma_ws
  have "dropWhile ?Q (str_strip s) = dropWhile ?Q (rev (dropWhile ?P (rev (dropWhile ?P s))))"
    by (simp add: str_strip_def str_lstrip_def str_rstrip_def)
  also have "\<dots> = rev (dropWhile ?P (rev (dropWhile ?Q (dropWhile ?P s))))"
    by (rule trim_commute [symmetric])
  also have "\<dots> = rev (dropWhile ?P (rev (dropWhile ?Q s)))"
    by (simp add: dropWhile_absorb isspace_comma_ws)
  finally have "rev (dropWhile ?Q (rev (dropWhile ?Q (str_strip s))))
        = rev (dropWhile ?Q (dropWhile ?P (rev (dropWhile ?Q s))))" by simp
  then show ?thesis by (simp add: dropWhile_absorb isspace_comma_ws trim_label_def)
qed


lemma trim_label_ends:
  assumes "trim_label s \<noteq> []"
  shows "\<not> is_comma_ws (hd (trim_label s))" and "\<not> is_comma_ws (last (trim_label s))"
proof -
  let ?Q = is_comma_ws
  have eq: "trim_label s = dropWhile ?Q (rev (dropWhile ?Q (rev s)))"
    unfolding trim_label_def by (rule trim_commute)
  from assms show "\<not> ?Q (hd (trim_label s))"
    unfolding eq by (rule hd_dropWhile)
  have "dropWhile ?Q (rev (dropWhile ?Q s)) \<noteq> []"
    using assms unfolding trim_label_def by simp
  then have "\<not> ?Q (hd (dropWhile ?Q (rev (dropWhile ?Q s))))" by (rule hd_dropWhile)
  then show "\<not> ?Q (last (trim_label s))"
    using assms unfolding trim_label_def by (simp add: last_rev)
qed

lemma drop_suffix_eq:
  "drop_suffix tok s = (if suffix tok s then Some (take (length s - length tok) s) else None)"
  by (simp add: drop_suffix_def suffix_to_prefix rev_drop)

lemma re_sub_noise_end_eq:
  assumes "t \<noteq> []" "\<not> isspace (last t)"
  shows "re_sub_noise_end t = strip_trailing_token t"
proof -
  have nl: "\<not> suffix (tok @ [10]) t" for tok
  proof
    assume "suffix (tok @ [10]) t"
    then obtain zs where "t = zs @ tok @ [10]" by (auto simp: suffix_def)
    then have "last t = 10" by simp
    with assms(2) show False by (simp add: isspace_def)
  qed
  show ?thesis
    by (simp add: re_sub_noise_end_def strip_trailing_token_def drop_suffix_eq nl)
qed

lemma dropWhile_hd_id: "xs \<noteq> [] \<Longrightarrow> \<not> P (hd xs) \<Longrightarrow> dropWhile P xs = xs"
  by (cases xs) auto

lemma rstrip_prefix_tok:
  assumes "tok \<noteq> []" "\<not> P (last tok)"
  shows "rev (dropWhile P (rev (tok @ v))) = tok @ rev (dropWhile P (rev v))"
proof -
  have t: "dropWhile P (rev tok) = rev tok"
    using assms by (intro dropWhile_hd_id) (simp_all add: hd_rev)
  show ?thesis
    by (simp add: dropWhile_append t)
qed

lemma rstrip_is_prefix: "prefix (rev (dropWhile P (rev u))) u"
proof -
  have "suffix (dropWhile P (rev u)) (rev u)" by (rule suffix_dropWhile)
  then show ?thesis by (simp add: suffix_to_prefix)
qed

lemma prefix_rstrip:
  assumes "tok \<noteq> []" "\<not> P (last tok)"
  shows "prefix tok (rev (dropWhile P (rev u))) \<longleftrightarrow> prefix tok u"
proof
  assume "prefix tok (rev (dropWhile P (rev u)))"
  then show "prefix tok u" using rstrip_is_prefix [of P u] by (rule prefix_order.trans)
next
  assume "prefix tok u"
  then obtain v where "u = tok @ v" by (auto simp: prefix_def)
  then show "prefix tok (rev (dropWhile P (rev u)))"
    using rstrip_prefix_tok [of tok P v] assms by simp
qed

lemma noise_start_rstrip:
  "re_sub_noise_start (str_rstrip u) = str_rstrip (re_sub_noise_start u)"
proof -
  have a: "tok_tou \<noteq> []" "\<not> isspace (last tok_tou)" "tok_nado \<noteq> []" "\<not> isspace (last tok_nado)"
    by (simp_all add: tok_tou_def tok_nado_def isspace_def)
  have d: "prefix tok u \<Longrightarrow> tok \<noteq> [] \<Longrightarrow> \<not> isspace (last tok) \<Longrightarrow>
      drop (length tok) (str_rstrip u) = str_rstrip (drop (length tok) u)" for tok
    using rstrip_prefix_tok [of tok isspace] by (auto simp: prefix_def str_rstrip_def)
  show ?thesis
    unfolding re_sub_noise_start_def
    using prefix_rstrip [of tok_tou isspace u] prefix_rstrip [of tok_nado isspace u]
      d [of tok_tou] d [of tok_nado] a
    by (simp add: str_rstrip_def)
qed

lemma strip_rstrip: "str_strip (str_rstrip x) = str_strip x"
proof -
  have "str_strip (str_rstrip x) = str_rstrip (str_rstrip (str_lstrip x))"
    unfolding str_strip_def str_rstrip_def str_lstrip_def
    by (simp add: trim_commute [symmetric])
  also have "\<dots> = str_rstrip (str_lstrip x)"
    by (simp add: str_rstrip_def)
  finally show ?thesis by (simp add: str_strip_def)
qed

lemma lstrip_id: "u = [] \<or> \<not> isspace (hd u) \<Longrightarrow> str_strip u = str_rstrip u"
  by (cases u) (auto simp: str_strip_def str_lstrip_def)


lemma noise_start_eq: "re_sub_noise_start u = strip_leading_token u"
  by (simp add: re_sub_noise_start_def strip_leading_token_def)

lemma strip_trailing_token_hd:
  assumes "t \<noteq> []" "\<not> isspace (hd t)"
  shows "strip_trailing_token t = [] \<or> \<not> isspace (hd (strip_trailing_token t))"
proof -
  obtain k where k: "strip_trailing_token t = take k t"
    unfolding strip_trailing_token_def by (metis take_all order_refl)
  show ?thesis
  proof (cases k)
    case 0
    with k show ?thesis by simp
  next
    case (Suc n)
    with k assms show ?thesis by (simp add: hd_take)
  qed
qed

lemma normalize_nonempty_branch:
  assumes t: "trim_label s \<noteq> []"
  shows "str_strip (re_sub_noise_start (str_strip (re_sub_noise_end (trim_label s)))) =
         str_strip (strip_leading_token (strip_trailing_token (trim_label s)))"
proof -
  let ?t = "trim_label s" and ?u = "strip_trailing_token (trim_label s)"
  from trim_label_ends [OF t] have h: "\<not> isspace (hd ?t)" and l: "\<not> isspace (last ?t)"
    by (auto simp: is_comma_ws_def)
  have e: "re_sub_noise_end ?t = ?u" using t l by (rule re_sub_noise_end_eq)
  have "str_strip ?u = str_rstrip ?u"
    using strip_trailing_token_hd [OF t h] by (rule lstrip_id)
  then have "str_strip (re_sub_noise_start (str_strip (re_sub_noise_end ?t)))
      = str_strip (str_rstrip (re_sub_noise_start ?u))"
    by (simp add: e noise_start_rstrip)
  also have "\<dots> = str_strip (strip_leading_token ?u)"
    by (simp add: strip_rstrip noise_start_eq)
  finally show ?thesis .
qed

lemma normalize_unfold:
  "normalize_partner_label (Some s) =
     (if s = [] \<or> trim_label s = [] then None
      else if trim_label s = tok_tou \<or> trim_label s = tok_nado then None
      else if str_strip (re_sub_noise_start (str_strip (re_sub_noise_end (trim_label s)))) = []
      then None
      else Some (str_strip (re_sub_noise_start (str_strip (re_sub_noise_end (trim_label s))))))"
  unfolding normalize_partner_label_def Let_def trim_label_strip
  by (simp add: truthy_def str_of_def)

lemma normalize_refines:
  "normalize_partner_label s0 = normalizeLabel_spec str_strip s0"
proof (cases s0)
  case None
  then show ?thesis
    by (simp add: normalize_partner_label_def truthy_def normalizeLabel_spec_def)
next
  case (Some s)
  have e: "strip_leading_token (strip_trailing_token []) = []"
    by (simp add: strip_leading_token_def strip_trailing_token_def tok_tou_def tok_nado_def)
  have s0: "str_strip [] = []" by (simp add: strip_defs)
  have tl0: "trim_label [] = []" by (simp add: trim_label_def)
  have nt: "[] \<noteq> tok_tou" "[] \<noteq> tok_nado" by (simp_all add: tok_tou_def tok_nado_def)
  show ?thesis
  proof (cases "trim_label s = []")
    case True
    then show ?thesis
      using Some nt by (simp add: normalize_unfold normalizeLabel_spec_def e s0)
  next
    case False
    then show ?thesis
      using Some normalize_nonempty_branch [OF False] tl0
      by (auto simp: normalize_unfold normalizeLabel_spec_def Let_def)
  qed
qed

lemma normalize_examples:
  "normalize_partner_label (Some [12452, 12488, 12521, 12467, 12490, 12478, 12540, 12523, 31561])
     = Some [12452, 12488, 12521, 12467, 12490, 12478, 12540, 12523]"
  "normalize_partner_label (Some [31561]) = None"
  "normalize_partner_label (Some [32, 32]) = None"
  "normalize_partner_label (Some [65, 12289, 31561]) = Some [65, 12289]"
  by (simp_all add: normalize_partner_label_def truthy_def str_of_def strip_defs is_comma_ws_def
      re_sub_noise_end_def re_sub_noise_start_def drop_suffix_def tok_tou_def tok_nado_def)

lemma spec_example:
  "normalizeLabel_spec trim_label (Some [65, 12289, 31561]) = Some [65]"
  by (simp add: normalizeLabel_spec_def trim_label_def strip_leading_token_def
      strip_trailing_token_def suffix_to_prefix is_comma_ws_def isspace_def tok_tou_def tok_nado_def)

lemma normalize_not_empty: "normalize_partner_label s0 \<noteq> Some []"
proof (cases s0)
  case None
  then show ?thesis by (simp add: normalize_partner_label_def truthy_def)
next
  case (Some s)
  then show ?thesis by (simp add: normalize_unfold)
qed

text \<open>
  C5 (as amended).  \<open>normalize_partner_label\<close> computes the specification's
  \<open>normalizeLabel\<close> with the final trim being a whitespace trim: surrounding whitespace and
  comma-like punctuation are removed from the input; an input that trims to exactly one of
  the two noise tokens is absent; otherwise a trailing and a leading noise token are
  removed and the result is stripped of surrounding whitespace only; an empty result is
  absent.  The three examples of the specification hold.
\<close>

theorem normalize_partner_label_refines:
  "normalize_partner_label s0 = normalizeLabel_spec str_strip s0
   \<and> normalize_partner_label
        (Some [12452, 12488, 12521, 12467, 12490, 12478, 12540, 12523, 31561])
       = Some [12452, 12488, 12521, 12467, 12490, 12478, 12540, 12523]
   \<and> normalize_partner_label (Some [31561]) = None
   \<and> normalize_partner_label (Some [32, 32]) = None"
  using normalize_refines [of s0] normalize_examples(1,2,3) by blast

theorem normalize_partner_label_refines_witness:
  "normalizeLabel_spec str_strip (Some [65, 12289, 31561]) = Some [65, 12289]"
  using normalize_partner_label_refines [of "Some [65, 12289, 31561]"] normalize_examples(4)
  by simp

text \<open>
  The claim as stated has the result trimmed again of whitespace and comma-like punctuation.
  On "A" followed by an ideographic comma and the noise token U+7B49 the code keeps the
  comma, which the trim of the specification removes.
\<close>

theorem normalize_partner_label_retrim_counterexample:
  "normalize_partner_label (Some [65, 12289, 31561]) = Some [65, 12289]
   \<and> normalizeLabel_spec trim_label (Some [65, 12289, 31561]) = Some [65]"
  using normalize_examples(4) spec_example by blast

section \<open>The interaction flattener and the text selector\<close>

lemma asc_eq [simp]: "asc a = asc b \<longleftrightarrow> a = b"
  by (simp add: asc_def inj_map_eq_map [OF inj_of_char])

lemma pi_eq [simp]: "pi a = pi b \<longleftrightarrow> a = b"
  by (simp add: pi_def)

lemma detail_ja_full:
  "detail_text_full (Some (detail_ja s)) =
     (if str_strip s = [] then None else normalize_partner_label (Some (str_strip s)))"
proof -
  have i: "itertext_join (lang_ja s) = s"
    by (simp add: itertext_join_def lang_ja_def text_piece_def)
  have ss: "str_strip (str_strip s) = str_strip s"
    using strip_rstrip [of "str_lstrip s"] by (simp add: str_strip_def str_lstrip_def)
  have l: "lang_text_all (Some (detail_ja s)) = (if str_strip s = [] then None else Some (str_strip s))"
    by (simp add: lang_text_all_def findall_def detail_ja_def i)
       (simp add: lang_ja_def el_get_def)
  have t: "str_strip s = [] \<Longrightarrow> text_ja (Some (detail_ja s)) = None"
    by (simp add: text_ja_def findall_def detail_ja_def truthy_def)
       (simp add: lang_ja_def el_get_def str_of_def)
  have g: "get_text_direct (Some (detail_ja s)) = None"
    by (simp add: get_text_direct_def detail_ja_def truthy_def)
  show ?thesis
    by (simp add: detail_text_full_def l t g py_or_def truthy_def str_of_def ss Let_def)
qed

lemma norm_plain:
  "normalize_partner_label (Some s_cyp) = Some s_cyp"
  "normalize_partner_label (Some s_itra) = Some s_itra"
  "normalize_partner_label (Some s_clari) = Some s_clari"
  "normalize_partner_label (Some s_anti) = Some s_anti"
  "normalize_partner_label (Some (s_itra @ tok_tou)) = Some s_itra"
  "normalize_partner_label (Some tok_tou) = None"
  by (simp_all add: s_cyp_def s_itra_def s_clari_def s_anti_def normalize_partner_label_def truthy_def str_of_def strip_defs is_comma_ws_def
      re_sub_noise_end_def re_sub_noise_start_def drop_suffix_def tok_tou_def tok_nado_def)

lemma strip_plain:
  "str_strip s_cyp = s_cyp" "str_strip s_itra = s_itra" "str_strip s_clari = s_clari"
  "str_strip s_anti = s_anti" "str_strip (s_itra @ tok_tou) = s_itra @ tok_tou"
  "str_strip tok_tou = tok_tou" "str_strip s_qt = s_qt" "str_strip s_mech = s_mech"
  by (simp_all add: s_cyp_def s_itra_def s_clari_def s_anti_def s_qt_def s_mech_def tok_tou_def strip_defs)

lemma nonempty_plain:
  "s_cyp \<noteq> []" "s_itra \<noteq> []" "s_clari \<noteq> []" "s_anti \<noteq> []" "tok_tou \<noteq> []" "s_qt \<noteq> []" "s_mech \<noteq> []"
  "s_itra \<noteq> s_clari" "s_clari \<noteq> s_itra"
  by (simp_all add: s_cyp_def s_itra_def s_clari_def s_anti_def s_qt_def s_mech_def tok_tou_def)

lemma node_sel:
  "tag (node n cs) = pi n" "children (node n cs) = cs" "etext (node n cs) = None"
  "tag (detail_ja s) = pi ''Detail''" "etext (detail_ja s) = None"
  by (simp_all add: node_def detail_ja_def)

lemma detail_ja_plain:
  "detail_text_full (Some (detail_ja s_cyp)) = Some s_cyp"
  "detail_text_full (Some (detail_ja s_itra)) = Some s_itra"
  "detail_text_full (Some (detail_ja s_clari)) = Some s_clari"
  "detail_text_full (Some (detail_ja s_anti)) = Some s_anti"
  "detail_text_full (Some (detail_ja (s_itra @ tok_tou))) = Some s_itra"
  "detail_text_full (Some (detail_ja tok_tou)) = None"
  using nonempty_plain by (simp_all add: detail_ja_full norm_plain strip_plain)

lemma ex_cyp_extract:
  "extract_partner_group_and_items ex_drug_cyp = (Some s_cyp, [s_itra, s_clari])"
  by (simp add: extract_partner_group_and_items_def ex_drug_cyp_def find_first_def findall_def
      node_sel detail_ja_plain nonempty_plain truthy_def str_of_def Let_def)


lemma append_items_eq:
  "append_items acc items g sy me cat =
     acc @ map (\<lambda>p. \<lparr>partner = p, grp = g, symptoms = sy, mechanism = me, category = cat\<rparr>) items"
  by (induction items arbitrary: acc) simp_all

lemma class_label_loop_truthy: "class_label_loop ds = None \<or> truthy (class_label_loop ds)"
  by (induction ds) (simp_all add: Let_def)

lemma extract_label_truthy:
  "fst (extract_partner_group_and_items drug) = None
   \<or> truthy (fst (extract_partner_group_and_items drug))"
  using class_label_loop_truthy
  by (auto simp: extract_partner_group_and_items_def Let_def split: option.splits)

lemma flat_step_append: "flat_step cat acc drug = acc @ flat_step cat [] drug"
  by (simp add: flat_step_def append_items_eq split: prod.splits)

lemma flat_loop_eq: "flat_loop cat acc drugs = acc @ concat (map (flat_step cat []) drugs)"
proof (induction drugs arbitrary: acc)
  case Nil
  then show ?case by simp
next
  case (Cons d ds)
  show ?case using flat_step_append [of cat acc d] by (simp add: Cons.IH)
qed

lemma collect_flat_eq:
  "flat (collect_interactions_flat root) =
     concat (map (flat_step CAT_CONTRA []) (contra_drugs root))
     @ concat (map (flat_step CAT_CAUTION []) (caution_drugs root))"
  by (simp add: collect_interactions_flat_def Let_def flat_loop_eq)

lemma flat_step_category: "r \<in> set (flat_step cat [] drug) \<Longrightarrow> category r = cat"
  by (auto simp: flat_step_def append_items_eq split: prod.splits if_splits)

text \<open>
  C1.  For every drug-reference block the flattener processes, with \<open>(g, items)\<close> the
  result of the partner/group extraction and \<open>(sy, me)\<close> the symptoms and mechanism: when
  there are N \<ge> 1 items, exactly N records are appended, one per item in order, all with
  group \<open>g\<close>, symptoms \<open>sy\<close> and mechanism \<open>me\<close>; when there is no item but a label,
  exactly one record is appended, whose partner is its group; when there is neither, nothing
  is appended.  The flat list is the concatenation of what the blocks contribute.
\<close>

theorem flatten_cardinality:
  assumes "extract_partner_group_and_items drug = (g, items)"
    and "get_symptoms_and_mechanism drug = (sy, me)"
  shows "(items \<noteq> [] \<longrightarrow>
            flat_step cat acc drug =
              acc @ map (\<lambda>p. \<lparr>partner = p, grp = g, symptoms = sy, mechanism = me,
                                category = cat\<rparr>) items
            \<and> length (flat_step cat acc drug) = length acc + length items)
       \<and> (items = [] \<and> g = Some l \<longrightarrow>
            flat_step cat acc drug =
              acc @ [\<lparr>partner = l, grp = Some l, symptoms = sy, mechanism = me,
                        category = cat\<rparr>])
       \<and> (items = [] \<and> g = None \<longrightarrow> flat_step cat acc drug = acc)
       \<and> flat (collect_interactions_flat root) =
            concat (map (flat_step CAT_CONTRA []) (contra_drugs root))
            @ concat (map (flat_step CAT_CAUTION []) (caution_drugs root))"
proof -
  have 1: "items \<noteq> [] \<longrightarrow>
            flat_step cat acc drug =
              acc @ map (\<lambda>p. \<lparr>partner = p, grp = g, symptoms = sy, mechanism = me,
                                category = cat\<rparr>) items
            \<and> length (flat_step cat acc drug) = length acc + length items"
    using assms by (simp add: flat_step_def append_items_eq)
  have 2: "items = [] \<and> g = Some l \<longrightarrow>
            flat_step cat acc drug =
              acc @ [\<lparr>partner = l, grp = Some l, symptoms = sy, mechanism = me,
                        category = cat\<rparr>]"
    using assms extract_label_truthy [of drug] by (auto simp: flat_step_def str_of_def)
  have 3: "items = [] \<and> g = None \<longrightarrow> flat_step cat acc drug = acc"
    using assms by (simp add: flat_step_def truthy_def)
  from 1 2 3 collect_flat_eq [of root] show ?thesis by blast
qed


lemma subseq_concat_filter:
  "(\<And>x. x \<in> set xs \<Longrightarrow> subseq (f x) (g x)) \<Longrightarrow>
   subseq (concat (map f (filter Q xs))) (concat (map g xs))"
proof (induction xs)
  case Nil
  then show ?case by simp
next
  case (Cons x xs)
  then have ih: "subseq (concat (map f (filter Q xs))) (concat (map g xs))" by simp
  show ?case
  proof (cases "Q x")
    case True
    then show ?thesis using Cons.prems [of x] ih by (simp add: list_emb_append_mono)
  next
    case False
    then show ?thesis using ih by (simp add: list_emb_append2)
  qed
qed

lemma subseq_concat_map:
  "(\<And>x. x \<in> set xs \<Longrightarrow> subseq (f x) (g x)) \<Longrightarrow>
   subseq (concat (map f xs)) (concat (map g xs))"
  using subseq_concat_filter [of xs f g "\<lambda>_. True"] by simp

lemma subseq_tl: "subseq (tl xs) xs"
  by (cases xs) (auto intro: list_emb_Cons)

lemma iter_elem_unfold: "iter_elem e = e # concat (map iter_elem (children e))"
  by (cases e) simp

lemma subseq_children_iter:
  "(\<And>c. c \<in> set (children e) \<Longrightarrow> subseq (f c) (iter_elem c)) \<Longrightarrow>
   subseq (concat (map f (filter Q (children e)))) (iter_elem e)"
  using subseq_concat_filter [of "children e" f iter_elem Q]
  by (subst iter_elem_unfold) (auto intro: list_emb_Cons)

lemma concat_map_concat_map:
  "concat (map F (concat (map G xs))) = concat (map (\<lambda>x. concat (map F (G x))) xs)"
  by (induction xs) simp_all

lemma findall_three:
  "findall root [Child a, Child b, Descendant c] =
     concat (map (\<lambda>i. concat (map (\<lambda>e. filter (\<lambda>d. tag d = c) (tl (iter_elem e)))
                                 (filter (\<lambda>e. tag e = b) (children i))))
                 (filter (\<lambda>i. tag i = a) (children root)))"
  by (simp add: findall_def concat_map_concat_map)

lemma findall_three_subseq:
  "subseq (findall root [Child a, Child b, Descendant c]) (iter_elem root)"
  unfolding findall_three
proof (rule subseq_children_iter)
  fix i
  show "subseq (concat (map (\<lambda>e. filter (\<lambda>d. tag d = c) (tl (iter_elem e)))
                    (filter (\<lambda>e. tag e = b) (children i)))) (iter_elem i)"
  proof (rule subseq_children_iter)
    fix e
    have "subseq (filter (\<lambda>d. tag d = c) (tl (iter_elem e))) (tl (iter_elem e))"
      by (rule subseq_filter_left)
    then show "subseq (filter (\<lambda>d. tag d = c) (tl (iter_elem e))) (iter_elem e)"
      using subseq_tl by (rule subseq_order.trans)
  qed
qed


lemma iter_elem_examples:
  "iter_elem (node n cs) = node n cs # concat (map iter_elem cs)"
  "iter_elem (detail_ja s) = [detail_ja s, lang_ja s]"
  "tag (lang_ja s) = pi ''Lang''"
  by (simp_all add: node_def detail_ja_def lang_ja_def)

lemma lang_text_all_detail_ja:
  "lang_text_all (Some (detail_ja s)) = (if str_strip s = [] then None else Some (str_strip s))"
proof -
  have i: "itertext_join (lang_ja s) = s"
    by (simp add: itertext_join_def lang_ja_def text_piece_def)
  show ?thesis
    by (simp add: lang_text_all_def findall_def detail_ja_def i)
       (simp add: lang_ja_def el_get_def)
qed

lemma ex_drugs:
  "contra_drugs ex_root = [ex_drug_cyp]" "caution_drugs ex_root = [ex_drug_anti]"
  by (simp_all add: contra_drugs_def caution_drugs_def findall_def ex_root_def node_sel
      iter_elem_examples ex_drug_cyp_def ex_drug_anti_def)

lemma ex_anti_extract: "extract_partner_group_and_items ex_drug_anti = (Some s_anti, [])"
  by (simp add: extract_partner_group_and_items_def ex_drug_anti_def find_first_def findall_def
      node_sel detail_ja_plain nonempty_plain truthy_def str_of_def Let_def)

lemma ex_two_extract: "extract_partner_group_and_items ex_drug_two_labels = (Some s_anti, [])"
  by (simp add: extract_partner_group_and_items_def ex_drug_two_labels_def find_first_def
      findall_def node_sel detail_ja_plain nonempty_plain truthy_def str_of_def Let_def)

lemma ex_noise_extract: "extract_partner_group_and_items ex_drug_noise_label = (None, [])"
  by (simp add: extract_partner_group_and_items_def ex_drug_noise_label_def find_first_def
      findall_def node_sel detail_ja_plain nonempty_plain truthy_def str_of_def Let_def)

lemma ex_cyp_symptoms: "get_symptoms_and_mechanism ex_drug_cyp = (Some s_qt, Some s_mech)"
  using nonempty_plain
  by (simp add: get_symptoms_and_mechanism_def ex_drug_cyp_def find_first_def findall_def
      node_sel lang_text_all_detail_ja strip_plain py_or_def truthy_def)

lemma ex_anti_symptoms: "get_symptoms_and_mechanism ex_drug_anti = (None, None)"
  by (simp add: get_symptoms_and_mechanism_def ex_drug_anti_def find_first_def findall_def
      node_sel lang_text_all_def text_ja_def get_text_def py_or_def truthy_def)


lemma cat_distinct: "CAT_CONTRA \<noteq> CAT_CAUTION"
  by (simp add: CAT_CONTRA_def CAT_CAUTION_def)

lemma append_category_order:
  assumes "\<forall>r \<in> set A. category r = c1" "\<forall>r \<in> set B. category r = c2" "c1 \<noteq> c2"
    and "i < length (A @ B)" "j < length (A @ B)"
    and "category ((A @ B) ! i) = c1" "category ((A @ B) ! j) = c2"
  shows "i < j"
proof -
  have "i < length A"
  proof (rule ccontr)
    assume "\<not> i < length A"
    then have "(A @ B) ! i \<in> set B" using assms(4) by (simp add: nth_append)
    with assms(2,3,6) show False by auto
  qed
  moreover have "\<not> j < length A"
  proof
    assume "j < length A"
    then have "(A @ B) ! j \<in> set A" by (simp add: nth_append)
    with assms(1,3,7) show False by auto
  qed
  ultimately show ?thesis by simp
qed

text \<open>
  C10.  The flat list is the records of the contraindicated blocks followed by the records of
  the caution blocks: every record of category \<open>CAT_CONTRA\<close> stands before every record of
  category \<open>CAT_CAUTION\<close>.  Within a category the records are the concatenation of the
  blocks' records in the order of the blocks, which is document order (the blocks form a
  subsequence of the document-order traversal of the root).
\<close>

theorem flat_contra_before_caution:
  "flat (collect_interactions_flat root) =
     concat (map (flat_step CAT_CONTRA []) (contra_drugs root))
     @ concat (map (flat_step CAT_CAUTION []) (caution_drugs root))
   \<and> (\<forall>r \<in> set (concat (map (flat_step CAT_CONTRA []) (contra_drugs root))).
         category r = CAT_CONTRA)
   \<and> (\<forall>r \<in> set (concat (map (flat_step CAT_CAUTION []) (caution_drugs root))).
         category r = CAT_CAUTION)
   \<and> (\<forall>i j. i < length (flat (collect_interactions_flat root))
         \<and> j < length (flat (collect_interactions_flat root))
         \<and> category (flat (collect_interactions_flat root) ! i) = CAT_CONTRA
         \<and> category (flat (collect_interactions_flat root) ! j) = CAT_CAUTION
         \<longrightarrow> i < j)
   \<and> subseq (contra_drugs root) (iter_elem root)
   \<and> subseq (caution_drugs root) (iter_elem root)"
proof -
  let ?A = "concat (map (flat_step CAT_CONTRA []) (contra_drugs root))"
  let ?B = "concat (map (flat_step CAT_CAUTION []) (caution_drugs root))"
  have e: "flat (collect_interactions_flat root) = ?A @ ?B" by (rule collect_flat_eq)
  have a: "\<forall>r \<in> set ?A. category r = CAT_CONTRA" by (auto dest: flat_step_category)
  have b: "\<forall>r \<in> set ?B. category r = CAT_CAUTION" by (auto dest: flat_step_category)
  have o: "\<forall>i j. i < length (?A @ ?B) \<and> j < length (?A @ ?B)
         \<and> category ((?A @ ?B) ! i) = CAT_CONTRA \<and> category ((?A @ ?B) ! j) = CAT_CAUTION
         \<longrightarrow> i < j"
    using append_category_order [OF a b cat_distinct] by blast
  have s1: "subseq (contra_drugs root) (iter_elem root)"
    unfolding contra_drugs_def by (rule findall_three_subseq)
  have s2: "subseq (caution_drugs root) (iter_elem root)"
    unfolding caution_drugs_def by (rule findall_three_subseq)
  from a b o s1 s2 show ?thesis unfolding e by blast
qed

lemma ex_flat_steps:
  "flat_step CAT_CONTRA [] ex_drug_cyp =
     [\<lparr>partner = s_itra, grp = Some s_cyp, symptoms = Some s_qt, mechanism = Some s_mech,
       category = CAT_CONTRA\<rparr>,
      \<lparr>partner = s_clari, grp = Some s_cyp, symptoms = Some s_qt, mechanism = Some s_mech,
       category = CAT_CONTRA\<rparr>]"
  "flat_step CAT_CAUTION [] ex_drug_anti =
     [\<lparr>partner = s_anti, grp = Some s_anti, symptoms = None, mechanism = None,
       category = CAT_CAUTION\<rparr>]"
  using nonempty_plain
  by (simp_all add: flat_step_def ex_cyp_extract ex_cyp_symptoms ex_anti_extract ex_anti_symptoms
      truthy_def str_of_def)

theorem flat_contra_before_caution_witness:
  "flat (collect_interactions_flat ex_root) =
     [\<lparr>partner = s_itra, grp = Some s_cyp, symptoms = Some s_qt, mechanism = Some s_mech,
       category = CAT_CONTRA\<rparr>,
      \<lparr>partner = s_clari, grp = Some s_cyp, symptoms = Some s_qt, mechanism = Some s_mech,
       category = CAT_CONTRA\<rparr>,
      \<lparr>partner = s_anti, grp = Some s_anti, symptoms = None, mechanism = None,
       category = CAT_CAUTION\<rparr>]
   \<and> iter_elem ex_root ! 4 = ex_drug_anti \<and> iter_elem ex_root ! 9 = ex_drug_cyp"
proof -
  have "iter_elem ex_root ! 4 = ex_drug_anti \<and> iter_elem ex_root ! 9 = ex_drug_cyp"
    by (simp add: ex_root_def iter_elem_examples ex_drug_anti_def ex_drug_cyp_def)
  then show ?thesis
    using flat_contra_before_caution [of ex_root]
    by (simp add: ex_drugs ex_flat_steps)
qed

theorem flatten_cardinality_witness:
  "extract_partner_group_and_items ex_drug_cyp = (Some s_cyp, [s_itra, s_clari])
   \<and> get_symptoms_and_mechanism ex_drug_cyp = (Some s_qt, Some s_mech)
   \<and> flat_step CAT_CONTRA [] ex_drug_cyp =
     [\<lparr>partner = s_itra, grp = Some s_cyp, symptoms = Some s_qt, mechanism = Some s_mech,
       category = CAT_CONTRA\<rparr>,
      \<lparr>partner = s_clari, grp = Some s_cyp, symptoms = Some s_qt, mechanism = Some s_mech,
       category = CAT_CONTRA\<rparr>]
   \<and> extract_partner_group_and_items ex_drug_anti = (Some s_anti, [])
   \<and> flat_step CAT_CAUTION [] ex_drug_anti =
     [\<lparr>partner = s_anti, grp = Some s_anti, symptoms = None, mechanism = None,
       category = CAT_CAUTION\<rparr>]
   \<and> extract_partner_group_and_items ex_drug_noise_label = (None, [])
   \<and> flat_step CAT_CAUTION [] ex_drug_noise_label = []"
proof -
  have n: "get_symptoms_and_mechanism ex_drug_noise_label =
      (fst (get_symptoms_and_mechanism ex_drug_noise_label),
       snd (get_symptoms_and_mechanism ex_drug_noise_label))" by simp
  show ?thesis
    using flatten_cardinality [OF ex_cyp_extract ex_cyp_symptoms, where cat = CAT_CONTRA and acc = "[]"]
      flatten_cardinality [OF ex_anti_extract ex_anti_symptoms,
        where l = s_anti and cat = CAT_CAUTION and acc = "[]"]
      flatten_cardinality [OF ex_noise_extract n, where cat = CAT_CAUTION and acc = "[]"]
      ex_cyp_extract ex_cyp_symptoms ex_anti_extract ex_noise_extract
    by simp
qed


lemma class_label_loop_first:
  "ds = pre @ d # post \<Longrightarrow> \<forall>p \<in> set pre. \<not> truthy (detail_text_full (Some p)) \<Longrightarrow>
   truthy (detail_text_full (Some d)) \<Longrightarrow> class_label_loop ds = detail_text_full (Some d)"
  by (induction pre arbitrary: ds) (simp_all add: Let_def)

lemma class_label_loop_none:
  "\<forall>d \<in> set ds. \<not> truthy (detail_text_full (Some d)) \<Longrightarrow> class_label_loop ds = None"
  by (induction ds) (simp_all add: Let_def)

text \<open>
  C8 (as amended).  The group label is the selected and normalized text of the first label
  element (\<open>Detail\<close> child of the first \<open>DrugName\<close>), in document order, whose selected and
  normalized text is not absent; label elements before it (with absent text) are skipped and
  all label elements after it are ignored; with no such element the group is absent.  The
  text of a label element with a Japanese variant is the normalization of the variant's
  stripped full-subtree text.
\<close>

theorem group_first_nonempty_label:
  assumes "find_first drug [Child (pi ''DrugName'')] = Some dn"
  shows "(findall dn [Child (pi ''Detail'')] = pre @ d # post
            \<and> (\<forall>p \<in> set pre. \<not> truthy (detail_text_full (Some p)))
            \<and> truthy (detail_text_full (Some d))
          \<longrightarrow> fst (extract_partner_group_and_items drug) = detail_text_full (Some d))
       \<and> ((\<forall>d \<in> set (findall dn [Child (pi ''Detail'')]). \<not> truthy (detail_text_full (Some d)))
          \<longrightarrow> fst (extract_partner_group_and_items drug) = None)
       \<and> (truthy (lang_text_all (Some e))
          \<longrightarrow> detail_text_full (Some e) =
                normalize_partner_label (Some (str_strip (str_of (lang_text_all (Some e))))))"
proof -
  have f: "fst (extract_partner_group_and_items drug) =
      class_label_loop (findall dn [Child (pi ''Detail'')])"
    using assms by (simp add: extract_partner_group_and_items_def Let_def)
  have 1: "findall dn [Child (pi ''Detail'')] = pre @ d # post
            \<and> (\<forall>p \<in> set pre. \<not> truthy (detail_text_full (Some p)))
            \<and> truthy (detail_text_full (Some d))
          \<longrightarrow> fst (extract_partner_group_and_items drug) = detail_text_full (Some d)"
    unfolding f using class_label_loop_first [of _ pre d post] by blast
  have 2: "(\<forall>d \<in> set (findall dn [Child (pi ''Detail'')]). \<not> truthy (detail_text_full (Some d)))
          \<longrightarrow> fst (extract_partner_group_and_items drug) = None"
    unfolding f using class_label_loop_none by blast
  have 3: "truthy (lang_text_all (Some e))
          \<longrightarrow> detail_text_full (Some e) =
                normalize_partner_label (Some (str_strip (str_of (lang_text_all (Some e)))))"
    by (simp add: detail_text_full_def Let_def)
  from 1 2 3 show ?thesis by blast
qed

lemma ex_two_dn:
  "find_first ex_drug_two_labels [Child (pi ''DrugName'')]
     = Some (node ''DrugName'' [detail_ja tok_tou, detail_ja s_anti])"
  "findall (node ''DrugName'' [detail_ja tok_tou, detail_ja s_anti]) [Child (pi ''Detail'')]
     = [detail_ja tok_tou, detail_ja s_anti]"
  by (simp_all add: ex_drug_two_labels_def find_first_def findall_def node_sel)

theorem group_first_nonempty_label_witness:
  "find_first ex_drug_two_labels [Child (pi ''DrugName'')]
     = Some (node ''DrugName'' [detail_ja tok_tou, detail_ja s_anti])
   \<and> findall (node ''DrugName'' [detail_ja tok_tou, detail_ja s_anti]) [Child (pi ''Detail'')]
     = [detail_ja tok_tou] @ detail_ja s_anti # []
   \<and> \<not> truthy (detail_text_full (Some (detail_ja tok_tou)))
   \<and> truthy (detail_text_full (Some (detail_ja s_anti)))
   \<and> fst (extract_partner_group_and_items ex_drug_two_labels) = Some s_anti"
  using group_first_nonempty_label [OF ex_two_dn(1), of "[detail_ja tok_tou]" "detail_ja s_anti" "[]"]
    ex_two_dn nonempty_plain
  by (simp add: detail_ja_plain truthy_def)

text \<open>
  The claim as stated lets the first label element alone determine the group.  In a block
  whose first label is the noise token U+7B49 and whose second label is a drug class, the
  group is the second label, although a block with the first label alone has no group.
\<close>

theorem group_first_label_counterexample:
  "findall (node ''DrugName'' [detail_ja tok_tou, detail_ja s_anti]) [Child (pi ''Detail'')]
     = [detail_ja tok_tou, detail_ja s_anti]
   \<and> find_first ex_drug_two_labels [Child (pi ''DrugName'')]
     = Some (node ''DrugName'' [detail_ja tok_tou, detail_ja s_anti])
   \<and> detail_text_full (Some (detail_ja tok_tou)) = None
   \<and> fst (extract_partner_group_and_items ex_drug_two_labels) = Some s_anti
   \<and> fst (extract_partner_group_and_items ex_drug_noise_label) = None"
  using ex_two_dn by (simp add: ex_two_extract ex_noise_extract detail_ja_plain)

lemma itertext_join_unfold:
  "itertext_join (Elem t a x ta cs) =
     str_of x @ concat (map (\<lambda>c. itertext_join c @ str_of (tail c)) cs)"
proof -
  have p: "concat (text_piece y) = str_of y" for y
    by (cases y) (simp_all add: text_piece_def str_of_def)
  have "concat (concat (map (\<lambda>c. itertext c @ text_piece (tail c)) cs)) =
        concat (map (\<lambda>c. concat (itertext c) @ str_of (tail c)) cs)"
    by (induction cs) (simp_all add: p)
  then show ?thesis by (simp add: itertext_join_def p)
qed

lemma lang_text_all_loop_first:
  "ls = pre @ l # post \<Longrightarrow>
   \<forall>p \<in> set pre. el_get p XML_LANG \<noteq> Some (asc ''ja'') \<or> str_strip (itertext_join p) = [] \<Longrightarrow>
   el_get l XML_LANG = Some (asc ''ja'') \<Longrightarrow> str_strip (itertext_join l) \<noteq> [] \<Longrightarrow>
   lang_text_all_loop ls = Some (str_strip (itertext_join l))"
  by (induction pre arbitrary: ls) auto

lemma lang_text_all_loop_none:
  "\<forall>l \<in> set ls. el_get l XML_LANG \<noteq> Some (asc ''ja'') \<Longrightarrow> lang_text_all_loop ls = None"
  by (induction ls) auto

lemma lang_text_all_loop_blank:
  "\<forall>l \<in> set ls. el_get l XML_LANG \<noteq> Some (asc ''ja'') \<or> str_strip (itertext_join l) = [] \<Longrightarrow>
   lang_text_all_loop ls = None"
  by (induction ls) auto

text \<open>
  C6 (as amended).  The text selector \<open>lang_text_all\<close> accepts a \<open>Lang\<close> child as the Japanese
  variant when its \<open>xml:lang\<close> attribute is exactly "ja"; the value returned is the stripped
  concatenation of all descendant text (texts and tails of the whole subtree) of the first
  such child whose stripped text is not empty; without a child tagged exactly "ja" the
  result is absent.
\<close>

theorem lang_text_all_exact_ja:
  "(findall d [Child (pi ''Lang'')] = pre @ l # post
      \<and> (\<forall>p \<in> set pre. el_get p XML_LANG \<noteq> Some (asc ''ja'') \<or> str_strip (itertext_join p) = [])
      \<and> el_get l XML_LANG = Some (asc ''ja'') \<and> str_strip (itertext_join l) \<noteq> []
    \<longrightarrow> lang_text_all (Some d) = Some (str_strip (itertext_join l)))
   \<and> ((\<forall>l \<in> set (findall d [Child (pi ''Lang'')]). el_get l XML_LANG \<noteq> Some (asc ''ja''))
    \<longrightarrow> lang_text_all (Some d) = None)
   \<and> itertext_join (Elem t a x ta cs) =
       str_of x @ concat (map (\<lambda>c. itertext_join c @ str_of (tail c)) cs)
   \<and> ((\<forall>l \<in> set (findall d [Child (pi ''Lang'')]).
          el_get l XML_LANG \<noteq> Some (asc ''ja'') \<or> str_strip (itertext_join l) = [])
    \<longrightarrow> lang_text_all (Some d) = None)"
  using lang_text_all_loop_first [of "findall d [Child (pi ''Lang'')]" pre l post]
    lang_text_all_loop_none [of "findall d [Child (pi ''Lang'')]"]
    lang_text_all_loop_blank [of "findall d [Child (pi ''Lang'')]"]
    itertext_join_unfold [of t a x ta cs]
  by (simp add: lang_text_all_def)


theorem lang_text_all_exact_ja_witness:
  "findall ex_detail_nested [Child (pi ''Lang'')] =
     [Elem (pi ''Lang'') [(XML_LANG, asc ''en'')] (Some (asc ''x'')) None []]
     @ Elem (pi ''Lang'') [(XML_LANG, asc ''ja'')] (Some (asc '' ab'')) None
         [Elem (pi ''Sub'') [] (Some (asc ''c'')) (Some (asc ''d '')) []] # []
   \<and> lang_text_all (Some ex_detail_nested) = Some (asc ''abcd'')"
proof -
  let ?en = "Elem (pi ''Lang'') [(XML_LANG, asc ''en'')] (Some (asc ''x'')) None []"
  let ?ja = "Elem (pi ''Lang'') [(XML_LANG, asc ''ja'')] (Some (asc '' ab'')) None
         [Elem (pi ''Sub'') [] (Some (asc ''c'')) (Some (asc ''d '')) []]"
  have f: "findall ex_detail_nested [Child (pi ''Lang'')] = [?en] @ ?ja # []"
    by (simp add: ex_detail_nested_def findall_def)
  have j: "itertext_join ?ja = asc '' abcd ''"
    by (simp add: itertext_join_def text_piece_def asc_def)
  have st: "str_strip (asc '' abcd '') = asc ''abcd''"
    by (simp add: asc_def strip_defs)
  have g: "el_get ?en XML_LANG \<noteq> Some (asc ''ja'')" "el_get ?ja XML_LANG = Some (asc ''ja'')"
    by (simp_all add: el_get_def)
  have ne: "asc ''abcd'' \<noteq> []" by (simp add: asc_def)
  show ?thesis
    using lang_text_all_exact_ja [of ex_detail_nested "[?en]" ?ja "[]"] f g ne
    by (simp add: j st)
qed

text \<open>
  The claim as stated accepts a case-insensitive prefix match of "ja".  A label element
  whose only variant is tagged "ja-JP" yields no text in \<open>lang_text_all\<close>, in \<open>text_ja\<close> and in
  \<open>detail_text_full\<close>.
\<close>

theorem lang_text_all_ja_jp_counterexample:
  "findall ex_detail_ja_jp [Child (pi ''Lang'')] =
     [Elem (pi ''Lang'') [(XML_LANG, asc ''ja-JP'')] (Some (asc ''abc'')) None []]
   \<and> take 2 (asc ''ja-JP'') = asc ''ja''
   \<and> lang_text_all (Some ex_detail_ja_jp) = None
   \<and> text_ja (Some ex_detail_ja_jp) = None
   \<and> detail_text_full (Some ex_detail_ja_jp) = None"
proof -
  have f: "findall ex_detail_ja_jp [Child (pi ''Lang'')] =
     [Elem (pi ''Lang'') [(XML_LANG, asc ''ja-JP'')] (Some (asc ''abc'')) None []]"
    by (simp add: ex_detail_ja_jp_def findall_def)
  have t: "take 2 (asc ''ja-JP'') = asc ''ja''" by (simp add: asc_def)
  have l: "lang_text_all (Some ex_detail_ja_jp) = None"
    by (simp add: lang_text_all_def f el_get_def)
  have j: "text_ja (Some ex_detail_ja_jp) = None"
    by (simp add: text_ja_def f el_get_def) (simp add: ex_detail_ja_jp_def truthy_def)
  have g: "get_text_direct (Some ex_detail_ja_jp) = None"
    by (simp add: get_text_direct_def ex_detail_ja_jp_def truthy_def)
  have d: "detail_text_full (Some ex_detail_ja_jp) = None"
    by (simp add: detail_text_full_def l j g py_or_def truthy_def Let_def)
  from f t l j d show ?thesis by blast
qed

lemma ex_cyp_dn:
  "find_first ex_drug_cyp [Child (pi ''DrugName'')] =
     Some (node ''DrugName''
          [detail_ja s_cyp,
           node ''SimpleList''
             [node ''Item'' [detail_ja s_itra],
              node ''Item'' [detail_ja s_clari],
              node ''Item'' [detail_ja (s_itra @ tok_tou)]]])"
  by (simp add: ex_drug_cyp_def find_first_def findall_def node_sel)

lemma ex_cyp_items:
  "findall (node ''DrugName''
          [detail_ja s_cyp,
           node ''SimpleList''
             [node ''Item'' [detail_ja s_itra],
              node ''Item'' [detail_ja s_clari],
              node ''Item'' [detail_ja (s_itra @ tok_tou)]]])
     [Child (pi ''SimpleList''), Child (pi ''Item''), Child (pi ''Detail'')]
   = [detail_ja s_itra, detail_ja s_clari, detail_ja (s_itra @ tok_tou)]"
  by (simp add: findall_def node_sel)

theorem uniq_first_occurrence_witness:
  "uniq [asc ''A'', asc ''B'', asc ''A'', asc ''C''] = [asc ''A'', asc ''B'', asc ''C'']
   \<and> uniq [s_itra, s_clari, s_itra] = [s_itra, s_clari]
   \<and> snd (extract_partner_group_and_items ex_drug_cyp) = uniq [s_itra, s_clari, s_itra]"
proof -
  have u: "uniq [s_itra, s_clari, s_itra] = [s_itra, s_clari]"
    using nonempty_plain by (simp add: uniq_def)
  show ?thesis
    using uniq_first_occurrence [of "[asc ''A'', asc ''B'', asc ''A'', asc ''C'']" ex_drug_cyp, OF]
      nonempty_plain u
    by (simp add: ex_cyp_dn ex_cyp_items detail_ja_plain truthy_def str_of_def)
qed

section \<open>The section locator\<close>

lemma hits_loop_eq:
  "hits_loop es T hits = hits @ filter (\<lambda>e. local_name (tag e) \<in> T) es"
  by (induction es arbitrary: hits) simp_all

lemma extract_snd:
  "hits_loop (iter_elem root) T [] = h0 # hs \<Longrightarrow>
   snd (extract_section_texts (Some root) T) = el_get h0 (asc ''id'')"
  by (simp add: extract_section_texts_def Let_def split: prod.splits)

text \<open>
  C9.  When some element of the document has its local tag name in the target set, the
  section locator returns as source id the \<open>id\<close> attribute of the first such element of the
  depth-first, document-order traversal; with no such element, and for an absent document,
  it returns \<open>(None, None)\<close>.
\<close>

theorem section_locator_first_id:
  "(iter_elem root = pre @ h # post \<and> local_name (tag h) \<in> T
      \<and> (\<forall>e \<in> set pre. local_name (tag e) \<notin> T)
    \<longrightarrow> snd (extract_section_texts (Some root) T) = el_get h (asc ''id''))
   \<and> ((\<forall>e \<in> set (iter_elem root). local_name (tag e) \<notin> T)
    \<longrightarrow> extract_section_texts (Some root) T = (None, None))
   \<and> extract_section_texts None T = (None, None)"
proof -
  have 1: "iter_elem root = pre @ h # post \<and> local_name (tag h) \<in> T
      \<and> (\<forall>e \<in> set pre. local_name (tag e) \<notin> T)
    \<longrightarrow> snd (extract_section_texts (Some root) T) = el_get h (asc ''id'')"
  proof (intro impI, elim conjE)
    assume a: "iter_elem root = pre @ h # post" "local_name (tag h) \<in> T"
      "\<forall>e \<in> set pre. local_name (tag e) \<notin> T"
    then have "filter (\<lambda>e. local_name (tag e) \<in> T) pre = []" by (simp add: filter_empty_conv)
    with a have "hits_loop (iter_elem root) T [] =
        h # filter (\<lambda>e. local_name (tag e) \<in> T) post"
      by (simp add: hits_loop_eq)
    then show "snd (extract_section_texts (Some root) T) = el_get h (asc ''id'')"
      by (rule extract_snd)
  qed
  have 2: "(\<forall>e \<in> set (iter_elem root). local_name (tag e) \<notin> T)
    \<longrightarrow> extract_section_texts (Some root) T = (None, None)"
  proof
    assume "\<forall>e \<in> set (iter_elem root). local_name (tag e) \<notin> T"
    then have "hits_loop (iter_elem root) T [] = []"
      by (simp add: hits_loop_eq filter_empty_conv)
    then show "extract_section_texts (Some root) T = (None, None)"
      by (simp add: extract_section_texts_def)
  qed
  have 3: "extract_section_texts None T = (None, None)"
    by (simp add: extract_section_texts_def)
  from 1 2 3 show ?thesis by blast
qed

lemma local_name_examples:
  "local_name (asc ''{urn:a}Root'') = asc ''Root''"
  "local_name (asc ''{urn:a}Section'') = asc ''Section''"
  "local_name (asc ''{urn:a}UseInPregnant'') = asc ''UseInPregnant''"
  "local_name (asc ''Pregnant'') = asc ''Pregnant''"
  by (simp_all add: local_name_def asc_def)

lemma in_pregnant_tags:
  "asc ''Root'' \<notin> PREGNANT_TAGS" "asc ''Section'' \<notin> PREGNANT_TAGS"
  "asc ''UseInPregnant'' \<in> PREGNANT_TAGS" "asc ''Pregnant'' \<in> PREGNANT_TAGS"
  by (simp_all add: PREGNANT_TAGS_def)

theorem section_locator_first_id_witness:
  "iter_elem ex_doc_two =
     [ex_doc_two,
      Elem (asc ''{urn:a}Section'') [(asc ''id'', asc ''s1'')] None None
          [Elem (asc ''{urn:a}UseInPregnant'') [(asc ''id'', asc ''p1'')] (Some (asc ''first'')) None
             []]]
     @ Elem (asc ''{urn:a}UseInPregnant'') [(asc ''id'', asc ''p1'')] (Some (asc ''first'')) None []
     # [Elem (asc ''Pregnant'') [(asc ''id'', asc ''p2'')] (Some (asc ''second'')) None []]
   \<and> snd (extract_section_texts (Some ex_doc_two) PREGNANT_TAGS) = Some (asc ''p1'')
   \<and> extract_section_texts (Some ex_doc_none) PREGNANT_TAGS = (None, None)
   \<and> extract_section_texts (Some ex_doc_two) PREGNANT_TAGS
       = (Some (asc ''first''), Some (asc ''p1''))"
proof -
  let ?sec = "Elem (asc ''{urn:a}Section'') [(asc ''id'', asc ''s1'')] None None
          [Elem (asc ''{urn:a}UseInPregnant'') [(asc ''id'', asc ''p1'')] (Some (asc ''first'')) None
             []]"
  let ?p1 = "Elem (asc ''{urn:a}UseInPregnant'') [(asc ''id'', asc ''p1'')] (Some (asc ''first'')) None []"
  let ?p2 = "Elem (asc ''Pregnant'') [(asc ''id'', asc ''p2'')] (Some (asc ''second'')) None []"
  have i: "iter_elem ex_doc_two = [ex_doc_two, ?sec] @ ?p1 # [?p2]"
    by (simp add: ex_doc_two_def)
  have t: "tag ex_doc_two = asc ''{urn:a}Root''" by (simp add: ex_doc_two_def)
  have pre: "\<forall>e \<in> set [ex_doc_two, ?sec]. local_name (tag e) \<notin> PREGNANT_TAGS"
    by (simp add: t local_name_examples in_pregnant_tags)
  have h: "local_name (tag ?p1) \<in> PREGNANT_TAGS"
    by (simp add: local_name_examples in_pregnant_tags)
  have n: "\<forall>e \<in> set (iter_elem ex_doc_none). local_name (tag e) \<notin> PREGNANT_TAGS"
    by (simp add: ex_doc_none_def local_name_examples in_pregnant_tags)
  have g: "el_get ?p1 (asc ''id'') = Some (asc ''p1'')" by (simp add: el_get_def)
  have full: "extract_section_texts (Some ex_doc_two) PREGNANT_TAGS
       = (Some (asc ''first''), Some (asc ''p1''))"
  proof -
    have hl: "hits_loop (iter_elem ex_doc_two) PREGNANT_TAGS [] = [?p1, ?p2]"
      unfolding i by (simp add: t local_name_examples in_pregnant_tags)
    have ll: "hits_lang_loop [?p1, ?p2] ([], []) = ([], [])"
      by (simp add: local_name_examples LANG_LOCAL_def)
    have tn: "textnorm (Some (itertext_join ?p1)) = Some (asc ''first'')"
      by (simp add: textnorm_def itertext_join_def text_piece_def asc_def strip_defs)
    show ?thesis
      by (simp add: extract_section_texts_def hl ll tn g del: hits_lang_loop.simps)
  qed
  show ?thesis
    using section_locator_first_id [of ex_doc_two "[ex_doc_two, ?sec]" ?p1 "[?p2]" PREGNANT_TAGS]
      section_locator_first_id [of ex_doc_none _ _ _ PREGNANT_TAGS]
      i pre h n g full
    by simp
qed

text \<open>
  In the section locator a variant tagged "ja-JP" or "JA" goes to the Japanese bucket: its
  test is the case-insensitive prefix test that the text selector of 21_sgml2rawdata.py does
  not make.
\<close>

lemma section_locator_ja_prefix:
  "lang_nodes_loop [Elem (asc ''{urn:a}Lang'') [(XML_LANG, asc ''ja-JP'')] (Some (asc ''abc'')) None []]
     ([], []) = ([asc ''abc''], [])"
  "lang_nodes_loop [Elem (asc ''Lang'') [(asc ''lang'', asc ''JA'')] (Some (asc ''abc'')) None []]
     ([], []) = ([asc ''abc''], [])"
  "lang_nodes_loop [Elem (asc ''Lang'') [(asc ''lang'', asc ''en'')] (Some (asc ''abc'')) None []]
     ([], []) = ([], [asc ''abc''])"
  by (simp_all add: local_name_def LANG_LOCAL_def textnorm_def itertext_join_def text_piece_def
      el_get_def py_or_def truthy_def str_of_def str_lower_def XML_LANG_def XMLNS_def
      asc_def strip_defs)


end
